theory Spec2Isabelle
  imports Complex_Main "HOL-Library.AList"
begin

section \<open>Numbers, configuration and price arithmetic\<close>

text \<open>
  The bot computes with Python floats. Prices, sizes and timestamps are modelled as
  exact rationals: the model states what the program computes when float arithmetic is
  exact. Python's \<^verbatim>\<open>round(x, n)\<close> rounds to \<open>n\<close> decimal places, ties to the even
  neighbour; \<^verbatim>\<open>math.floor\<close> is \<open>\<lfloor>_\<rfloor>\<close>. The source divides by the tick size; a tick of
  zero raises ZeroDivisionError there, so the price functions below are read for a tick
  different from zero.
\<close>

text \<open>Constants of \<^verbatim>\<open>config.py\<close>.\<close>

definition SPREAD_BUFFER_FRACTION :: rat where "SPREAD_BUFFER_FRACTION = 2 / 5"
definition MIN_SPREAD_BUFFER :: rat where "MIN_SPREAD_BUFFER = 1 / 500"
definition ORDER_GRACE_PERIOD_SECONDS :: rat where "ORDER_GRACE_PERIOD_SECONDS = 30"
definition RESCAN_INTERVAL_SECONDS :: rat where "RESCAN_INTERVAL_SECONDS = 180"
definition MAX_ORDER_SIZE :: rat where "MAX_ORDER_SIZE = 500"
definition MAX_SINGLE_ORDER_USDC :: rat where "MAX_SINGLE_ORDER_USDC = 250"
definition MAX_INVENTORY_PER_SIDE :: rat where "MAX_INVENTORY_PER_SIDE = 300"
definition MAX_ORDERS_PER_MARKET :: nat where "MAX_ORDERS_PER_MARKET = 3"
definition MAX_SELL_RETRIES :: nat where "MAX_SELL_RETRIES = 5"
definition FILL_COOLDOWN_SECONDS :: rat where "FILL_COOLDOWN_SECONDS = 300"
definition MAX_FILLS_BEFORE_BLOCK :: nat where "MAX_FILLS_BEFORE_BLOCK = 3"
definition GLOBAL_CIRCUIT_BREAKER :: bool where "GLOBAL_CIRCUIT_BREAKER = True"
definition GLOBAL_FILL_PAUSE_SECONDS :: rat where "GLOBAL_FILL_PAUSE_SECONDS = 120"
definition MARKET_BLACKLIST_SECONDS :: rat where "MARKET_BLACKLIST_SECONDS = 7200"
definition OFF_PEAK_SIZE_MULTIPLIER :: rat where "OFF_PEAK_SIZE_MULTIPLIER = 1"
definition PEAK_SIZE_MULTIPLIER :: rat where "PEAK_SIZE_MULTIPLIER = 1"

definition round_half_even :: "rat \<Rightarrow> int" where
  "round_half_even x =
     (let f = \<lfloor>x\<rfloor>; d = x - of_int f
      in if d < 1 / 2 then f
         else if 1 / 2 < d then f + 1
         else if even f then f else f + 1)"

definition py_round :: "rat \<Rightarrow> nat \<Rightarrow> rat" where
  "py_round x n = of_int (round_half_even (x * 10 ^ n)) / 10 ^ n"

text \<open>\<^verbatim>\<open>utils.round_price_down\<close> and \<^verbatim>\<open>utils.clamp_price\<close>.\<close>

definition round_price_down :: "rat \<Rightarrow> rat \<Rightarrow> rat" where
  "round_price_down price tick_size =
     py_round (of_int \<lfloor>py_round (price / tick_size) 8\<rfloor> * tick_size) 6"

definition clamp_price :: "rat \<Rightarrow> rat \<Rightarrow> rat" where
  "clamp_price price tick_size = max tick_size (min price (1 - tick_size))"

text \<open>\<^verbatim>\<open>OrderManager._compute_buffer\<close>, \<^verbatim>\<open>calculate_order_prices\<close> and
  \<^verbatim>\<open>_calculate_sell_price\<close>. The result of \<open>calculate_order_prices\<close> is the pair
  (BUY YES price, BUY NO price).\<close>

definition compute_buffer :: "rat \<Rightarrow> rat \<Rightarrow> rat" where
  "compute_buffer max_spread tick_size =
     (let buf = max (max_spread * SPREAD_BUFFER_FRACTION) MIN_SPREAD_BUFFER
      in max buf tick_size)"

definition calculate_order_prices :: "rat \<Rightarrow> rat \<Rightarrow> rat \<Rightarrow> rat \<times> rat" where
  "calculate_order_prices midpoint max_spread tick_size =
     (let buffer = compute_buffer max_spread tick_size;
          effective_spread = max_spread - buffer;
          buy_yes_price = midpoint - effective_spread;
          buy_yes_price = round_price_down buy_yes_price tick_size;
          buy_yes_price = clamp_price buy_yes_price tick_size;
          buy_yes_price =
            (if max_spread \<le> py_round (midpoint - buy_yes_price) 8
             then clamp_price (buy_yes_price + tick_size) tick_size
             else buy_yes_price);
          no_midpoint = 1 - midpoint;
          buy_no_price = no_midpoint - effective_spread;
          buy_no_price = round_price_down buy_no_price tick_size;
          buy_no_price = clamp_price buy_no_price tick_size;
          buy_no_price =
            (if max_spread \<le> py_round (no_midpoint - buy_no_price) 8
             then clamp_price (buy_no_price + tick_size) tick_size
             else buy_no_price)
      in (buy_yes_price, buy_no_price))"

definition calculate_sell_price :: "rat \<Rightarrow> rat \<Rightarrow> rat \<Rightarrow> bool \<Rightarrow> rat" where
  "calculate_sell_price midpoint max_spread tick_size is_yes =
     (let sell_price =
            (if is_yes then round_price_down midpoint tick_size
             else (let no_midpoint = 1 - midpoint
                   in round_price_down no_midpoint tick_size))
      in clamp_price sell_price tick_size)"

text \<open>
  Vocabulary for the statements about prices: a whole number, a multiple of the tick,
  and a decimal tick \<open>1/n\<close> with \<open>n\<close> a divisor of \<open>10\<^sup>6\<close> (the exchange's ticks
  0.1, 0.01, 0.001 and 0.0001 are of this kind), for which rounding a tick multiple to six
  places changes nothing.
\<close>

definition is_whole :: "rat \<Rightarrow> bool" where
  "is_whole x \<longleftrightarrow> of_int \<lfloor>x\<rfloor> = x"

definition decimal_tick :: "rat \<Rightarrow> bool" where
  "decimal_tick t \<longleftrightarrow> 0 < t \<and> t < 1 \<and> is_whole (1 / t) \<and> is_whole (1000000 * t)"

definition tick_multiple :: "rat \<Rightarrow> rat \<Rightarrow> bool" where
  "tick_multiple p t \<longleftrightarrow> is_whole (p / t)"

section \<open>The data model\<close>

text \<open>
  The dataclasses of \<^verbatim>\<open>order_manager.py\<close>. Field names are the source's, but for
  \<open>order_size\<close> (the source's \<^verbatim>\<open>ActiveOrder.size\<close>), \<open>order_condition_id\<close>
  (\<^verbatim>\<open>ActiveOrder.condition_id\<close>) and the fields of \<open>FillEvent\<close>, which carry the prefix
  \<open>fill_\<close>: HOL needs one name per field.
\<close>

datatype side = BUY | SELL

record ActiveOrder =
  order_id :: string
  token_id :: string
  side :: side
  price :: rat
  order_size :: rat
  order_condition_id :: string
  placed_at :: rat
  midpoint_at_placement :: rat

record FillEvent =
  fill_token_id :: string
  fill_side :: side
  fill_price :: rat
  fill_size :: rat
  fill_condition_id :: string

record MarketPosition =
  condition_id :: string
  token_id_yes :: string
  token_id_no :: string
  max_spread :: rat
  min_size :: rat
  tick_size :: rat
  orders :: "ActiveOrder list"
  last_midpoint :: rat
  yes_inventory :: rat
  no_inventory :: rat
  yes_entry_price :: rat
  no_entry_price :: rat
  yes_fill_times :: "rat list"
  no_fill_times :: "rat list"
  yes_last_sell_fill :: rat
  no_last_sell_fill :: rat
  yes_blocked :: bool
  no_blocked :: bool

text \<open>The fields of \<^verbatim>\<open>market_scanner.MarketOpportunity\<close> that order placement reads.\<close>

record MarketOpportunity =
  opp_condition_id :: string
  opp_token_id_yes :: string
  opp_token_id_no :: string
  opp_midpoint :: rat
  opp_max_spread :: rat
  opp_min_size :: rat
  opp_tick_size :: rat

text \<open>
  An order handed to the exchange by \<^verbatim>\<open>_place_order\<close>: the arguments of the call that
  passed its checks. \<open>submitted\<close> below is the trace of these submissions, the only
  part of the state that is not a field of the source's \<^verbatim>\<open>OrderManager\<close>.
\<close>

record order_request =
  req_condition_id :: string
  req_token_id :: string
  req_side :: side
  req_price :: rat
  req_size :: rat

text \<open>
  The state of \<^verbatim>\<open>OrderManager\<close>. \<open>positions\<close> is the dict \<^verbatim>\<open>self.positions\<close> as an
  association list in insertion order (Python dicts iterate in that order; keys are
  distinct). The dict \<^verbatim>\<open>_sell_fail_counts\<close> holds two kinds of keys, the pair
  (condition, token) with a failure count and the triple ("_last_retry", condition, token)
  with a timestamp: they are the two maps \<open>sell_fail_counts\<close> and \<open>last_retry\<close>.
\<close>

record OrderManager =
  positions :: "(string \<times> MarketPosition) list"
  sell_fail_counts :: "string \<times> string \<Rightarrow> nat option"
  last_retry :: "string \<times> string \<Rightarrow> rat option"
  phantom_tokens :: "string set"
  last_global_fill :: rat
  market_blacklist :: "string \<Rightarrow> rat option"
  submitted :: "order_request list"

section \<open>The exchange\<close>

text \<open>
  What the exchange and the data API answer during one call of an operation, as
  functions of the request. An exception of the client is a value: \<open>None\<close>, \<open>False\<close>
  or a constructor named \<open>...Raises\<close>. The wall clock is the argument \<open>now\<close> of each
  operation (one reading of \<^verbatim>\<open>time.time()\<close> per call).
\<close>

datatype order_type = GTC | FOK

datatype post_response =
    PostRaises
  | PostRejected
  | PostNoId
  | PostOk string

datatype size_field = SizeAbsent | SizeNum rat | SizeMalformed

datatype get_order_response =
    GetOrderRaises
  | GetOrderNotDict
  | GetOrderDict string size_field

datatype get_orders_response =
    GetOrdersRaises
  | GetOrdersNone
  | GetOrdersNotList
  | GetOrdersList "string list"

record exchange =
  api_midpoint :: "string \<Rightarrow> rat option"
  api_cancel :: "string \<Rightarrow> bool"
  api_update_allowance :: "string \<Rightarrow> bool"
  api_post_order :: "order_request \<Rightarrow> order_type \<Rightarrow> post_response"
  api_get_order :: "string \<Rightarrow> get_order_response"
  api_get_orders :: get_orders_response
  api_positions :: "(string \<times> rat) list option"
  api_tick_size :: "string \<Rightarrow> rat option"
  api_min_order_size :: "string \<Rightarrow> rat option"
  peak_hours :: bool

section \<open>Operations of the Order Manager\<close>

text \<open>\<^verbatim>\<open>utils.get_size_multiplier\<close>.\<close>

definition get_size_multiplier :: "exchange \<Rightarrow> rat" where
  "get_size_multiplier ex =
     (if peak_hours ex then PEAK_SIZE_MULTIPLIER else OFF_PEAK_SIZE_MULTIPLIER)"

text \<open>\<^verbatim>\<open>getattr(position, inv_attr)\<close>, \<^verbatim>\<open>setattr(position, inv_attr, v)\<close> and the
  entry price of a side.\<close>

definition inventory :: "bool \<Rightarrow> MarketPosition \<Rightarrow> rat" where
  "inventory is_yes p = (if is_yes then yes_inventory p else no_inventory p)"

definition set_inventory :: "bool \<Rightarrow> rat \<Rightarrow> MarketPosition \<Rightarrow> MarketPosition" where
  "set_inventory is_yes v p =
     (if is_yes then p\<lparr>yes_inventory := v\<rparr> else p\<lparr>no_inventory := v\<rparr>)"

definition entry_price :: "bool \<Rightarrow> MarketPosition \<Rightarrow> rat" where
  "entry_price is_yes p = (if is_yes then yes_entry_price p else no_entry_price p)"

definition last_sell_fill :: "bool \<Rightarrow> MarketPosition \<Rightarrow> rat" where
  "last_sell_fill is_yes p = (if is_yes then yes_last_sell_fill p else no_last_sell_fill p)"

text \<open>\<^verbatim>\<open>any(o.side == SELL and o.token_id == token_id for o in position.orders)\<close>.\<close>

definition has_sell :: "MarketPosition \<Rightarrow> string \<Rightarrow> bool" where
  "has_sell p tok = list_ex (\<lambda>od. side od = SELL \<and> token_id od = tok) (orders p)"

definition has_buy :: "MarketPosition \<Rightarrow> string \<Rightarrow> bool" where
  "has_buy p tok = list_ex (\<lambda>od. side od = BUY \<and> token_id od = tok) (orders p)"

text \<open>The clean-up loop that ends the fill and retry handlers: positions with no order
  and no inventory are deleted.\<close>

definition position_closed :: "MarketPosition \<Rightarrow> bool" where
  "position_closed p \<longleftrightarrow> orders p = [] \<and> yes_inventory p = 0 \<and> no_inventory p = 0"

definition cleanup_positions :: "OrderManager \<Rightarrow> OrderManager" where
  "cleanup_positions st =
     st\<lparr>positions := filter (\<lambda>(cid, p). \<not> position_closed p) (positions st)\<rparr>"

text \<open>
  Blocks of statements that the fill handlers repeat, as functions on the position.
  \<open>without_buys\<close> is \<^verbatim>\<open>position.orders = [o for o in position.orders if o.side != BUY]\<close>.
  \<open>record_buy_fill\<close> is the inventory update of a BUY fill (inventory, entry price,
  fill time of the side); \<open>block_if_runaway\<close> is the check for a runaway fill pattern
  that follows it. \<open>store_position\<close> writes a position back under its key: the source
  mutates the object the dict holds.
\<close>

definition without_buys :: "MarketPosition \<Rightarrow> MarketPosition" where
  "without_buys p = p\<lparr>orders := filter (\<lambda>od. side od \<noteq> BUY) (orders p)\<rparr>"

definition record_buy_fill :: "bool \<Rightarrow> rat \<Rightarrow> rat \<Rightarrow> rat \<Rightarrow> MarketPosition \<Rightarrow> MarketPosition" where
  "record_buy_fill is_yes sz entry now p =
     (if is_yes
      then p\<lparr>yes_inventory := yes_inventory p + sz, yes_entry_price := entry,
             yes_fill_times := yes_fill_times p @ [now]\<rparr>
      else p\<lparr>no_inventory := no_inventory p + sz, no_entry_price := entry,
             no_fill_times := no_fill_times p @ [now]\<rparr>)"

definition block_if_runaway :: "bool \<Rightarrow> rat \<Rightarrow> MarketPosition \<Rightarrow> MarketPosition" where
  "block_if_runaway is_yes now p =
     (let fill_times = (if is_yes then yes_fill_times p else no_fill_times p);
          recent = filter (\<lambda>t. now - t < FILL_COOLDOWN_SECONDS) fill_times
      in if MAX_FILLS_BEFORE_BLOCK \<le> length recent
         then (if is_yes then p\<lparr>yes_blocked := True\<rparr> else p\<lparr>no_blocked := True\<rparr>)
         else p)"

definition store_position :: "string \<Rightarrow> MarketPosition \<Rightarrow> OrderManager \<Rightarrow> OrderManager" where
  "store_position cid p st = st\<lparr>positions := AList.update cid p (positions st)\<rparr>"

text \<open>\<^verbatim>\<open>is_global_paused\<close>, \<^verbatim>\<open>blacklist_market\<close>, \<^verbatim>\<open>is_blacklisted\<close> (which deletes an
  expired entry) and \<^verbatim>\<open>cancel_all_buys\<close> (its count of cancelled orders is only
  logged and is left out).\<close>

definition is_global_paused :: "OrderManager \<Rightarrow> rat \<Rightarrow> bool" where
  "is_global_paused st now =
     (if \<not> GLOBAL_CIRCUIT_BREAKER then False
      else 0 < last_global_fill st \<and> now - last_global_fill st < GLOBAL_FILL_PAUSE_SECONDS)"

definition blacklist_market :: "rat \<Rightarrow> string \<Rightarrow> OrderManager \<Rightarrow> OrderManager" where
  "blacklist_market now cid st = st\<lparr>market_blacklist := (market_blacklist st)(cid \<mapsto> now)\<rparr>"

definition is_blacklisted :: "rat \<Rightarrow> string \<Rightarrow> OrderManager \<Rightarrow> bool \<times> OrderManager" where
  "is_blacklisted now cid st =
     (case market_blacklist st cid of
        None \<Rightarrow> (False, st)
      | Some bl_time \<Rightarrow>
          (let elapsed = now - bl_time
           in if MARKET_BLACKLIST_SECONDS \<le> elapsed
              then (False, st\<lparr>market_blacklist := (market_blacklist st)(cid := None)\<rparr>)
              else (True, st)))"

definition cancel_all_buys :: "OrderManager \<Rightarrow> OrderManager" where
  "cancel_all_buys st =
     st\<lparr>positions := map (\<lambda>(cid, p). (cid, without_buys p)) (positions st)\<rparr>"

text \<open>The circuit-breaker block of both fill handlers:
  \<^verbatim>\<open>if GLOBAL_CIRCUIT_BREAKER: self._last_global_fill = now; self.cancel_all_buys(...)\<close>.\<close>

definition trip_circuit_breaker :: "rat \<Rightarrow> OrderManager \<Rightarrow> OrderManager" where
  "trip_circuit_breaker now st =
     (if GLOBAL_CIRCUIT_BREAKER then cancel_all_buys (st\<lparr>last_global_fill := now\<rparr>) else st)"

text \<open>\<^verbatim>\<open>_get_order_status\<close>. \<^verbatim>\<open>str.upper\<close> on the bytes of an ASCII string.\<close>

datatype order_status = MATCHED | CANCELLED | LIVE | UNKNOWN

definition upper_char :: "char \<Rightarrow> char" where
  "upper_char c =
     (let n = (of_char c :: nat) in if 97 \<le> n \<and> n \<le> 122 then char_of (n - 32) else c)"

definition py_upper :: "string \<Rightarrow> string" where
  "py_upper s = map upper_char s"

definition get_order_status :: "exchange \<Rightarrow> string \<Rightarrow> order_status" where
  "get_order_status ex oid =
     (case api_get_order ex oid of
        GetOrderRaises \<Rightarrow> UNKNOWN
      | GetOrderNotDict \<Rightarrow> UNKNOWN
      | GetOrderDict status_field sm \<Rightarrow>
          (case sm of
             SizeMalformed \<Rightarrow> UNKNOWN
           | _ \<Rightarrow>
              (let status = py_upper status_field;
                   size_matched = (case sm of SizeNum x \<Rightarrow> x | _ \<Rightarrow> 0)
               in if status = ''MATCHED'' \<or> 0 < size_matched then MATCHED
                  else if status = ''CANCELLED'' \<or> status = ''EXPIRED'' then CANCELLED
                  else LIVE)))"

text \<open>\<^verbatim>\<open>_get_current_midpoint\<close>; the fallback every caller applies to it
  (\<^verbatim>\<open>mid = self._get_current_midpoint(position.token_id_yes)\<close>, then
  \<^verbatim>\<open>if mid is None: mid = position.last_midpoint\<close>); and \<^verbatim>\<open>_track_order\<close> (whose boolean
  result no caller reads).\<close>

definition get_current_midpoint :: "exchange \<Rightarrow> string \<Rightarrow> rat option" where
  "get_current_midpoint ex tok =
     (case api_midpoint ex tok of
        None \<Rightarrow> None
      | Some mid \<Rightarrow> if mid \<le> 0 \<or> 1 \<le> mid then None else Some mid)"

definition midpoint_or_last :: "exchange \<Rightarrow> MarketPosition \<Rightarrow> rat" where
  "midpoint_or_last ex position =
     (case get_current_midpoint ex (token_id_yes position) of
        None \<Rightarrow> last_midpoint position
      | Some mid \<Rightarrow> mid)"

definition track_order :: "MarketPosition \<Rightarrow> ActiveOrder \<Rightarrow> MarketPosition" where
  "track_order p order =
     (if MAX_ORDERS_PER_MARKET \<le> length (orders p) then p
      else p\<lparr>orders := orders p @ [order]\<rparr>)"

text \<open>
  \<^verbatim>\<open>_place_order\<close>. The checks come first, in the source's order; an order that passes
  them (and, for a SELL, the allowance update) is appended to \<open>submitted\<close> and posted.
  A SELL below \<open>min_order_size\<close> is posted as GTC and, when that raises, once more as
  FOK: one submission. The result is the tracked order, or \<open>None\<close>.
\<close>

definition order_checks_pass :: "rat \<Rightarrow> rat \<Rightarrow> bool" where
  "order_checks_pass pr sz \<longleftrightarrow>
     \<not> (pr \<le> 0 \<or> 1 \<le> pr \<or> sz \<le> 0) \<and> \<not> MAX_ORDER_SIZE < sz
     \<and> \<not> MAX_SINGLE_ORDER_USDC < pr * sz"

definition place_order ::
  "exchange \<Rightarrow> rat \<Rightarrow> OrderManager \<Rightarrow> string \<Rightarrow> rat \<Rightarrow> rat \<Rightarrow> side \<Rightarrow> string \<Rightarrow> rat \<Rightarrow> rat
     \<Rightarrow> ActiveOrder option \<times> OrderManager" where
  "place_order ex now st tok pr sz sd cid mid min_order_size =
     (if pr \<le> 0 \<or> 1 \<le> pr \<or> sz \<le> 0 then (None, st)
      else if MAX_ORDER_SIZE < sz then (None, st)
      else if MAX_SINGLE_ORDER_USDC < pr * sz then (None, st)
      else if sd = BUY \<and>
              (case map_of (positions st) cid of
                 None \<Rightarrow> False
               | Some position \<Rightarrow>
                   (let current_inv =
                          (if tok = token_id_yes position then yes_inventory position
                           else no_inventory position)
                    in MAX_INVENTORY_PER_SIDE < current_inv + sz))
      then (None, st)
      else if sd = SELL \<and> \<not> api_update_allowance ex tok then (None, st)
      else
        (let req = \<lparr>req_condition_id = cid, req_token_id = tok, req_side = sd,
                     req_price = pr, req_size = sz\<rparr>;
             st' = st\<lparr>submitted := submitted st @ [req]\<rparr>;
             is_sub_min_sell = (sd = SELL \<and> 0 < min_order_size \<and> sz < min_order_size);
             resp =
               (if is_sub_min_sell
                then (case api_post_order ex req GTC of
                        PostRaises \<Rightarrow> api_post_order ex req FOK
                      | r \<Rightarrow> r)
                else api_post_order ex req GTC)
         in case resp of
              PostOk oid \<Rightarrow>
                if oid = [] then (None, st')
                else (Some \<lparr>order_id = oid, token_id = tok, side = sd, price = pr,
                             order_size = sz, order_condition_id = cid, placed_at = now,
                             midpoint_at_placement = mid\<rparr>, st')
            | _ \<Rightarrow> (None, st')))"

text \<open>
  The idiom that follows every call of \<^verbatim>\<open>_place_order\<close> in the source,
  \<^verbatim>\<open>order = self._place_order(...)\<close> and then \<^verbatim>\<open>if order: self._track_order(position, order)\<close>:
  the position with the order tracked, and the state after the call.
\<close>

definition place_and_track ::
  "exchange \<Rightarrow> rat \<Rightarrow> OrderManager \<Rightarrow> MarketPosition \<Rightarrow> string \<Rightarrow> rat \<Rightarrow> rat \<Rightarrow> side \<Rightarrow> string
     \<Rightarrow> rat \<Rightarrow> rat \<Rightarrow> MarketPosition \<times> OrderManager" where
  "place_and_track ex now st position tok pr sz sd cid mid min_order_size =
     (let (placed, st') = place_order ex now st tok pr sz sd cid mid min_order_size
      in case placed of
           None \<Rightarrow> (position, st')
         | Some od \<Rightarrow> (track_order position od, st'))"

text \<open>\<^verbatim>\<open>cancel_market_orders\<close>: the position is deleted when every cancel succeeded.\<close>

definition cancel_market_orders :: "exchange \<Rightarrow> string \<Rightarrow> OrderManager \<Rightarrow> bool \<times> OrderManager" where
  "cancel_market_orders ex cid st =
     (case map_of (positions st) cid of
        None \<Rightarrow> (True, st)
      | Some position \<Rightarrow>
          (let success = list_all (\<lambda>od. api_cancel ex (order_id od)) (orders position)
           in if success then (True, st\<lparr>positions := AList.delete cid (positions st)\<rparr>)
              else (False, st)))"

text \<open>
  \<^verbatim>\<open>place_two_sided_orders\<close>. The new position enters \<open>positions\<close> when at least
  one order was tracked; the result is \<open>None\<close> where the source returns \<^verbatim>\<open>None\<close>.
\<close>

definition place_two_sided_orders ::
  "exchange \<Rightarrow> rat \<Rightarrow> MarketOpportunity \<Rightarrow> OrderManager \<Rightarrow> MarketPosition option \<times> OrderManager" where
  "place_two_sided_orders ex now opp st =
     (if is_global_paused st now then (None, st)
      else
        (let (buy_yes_price, buy_no_price) =
               calculate_order_prices (opp_midpoint opp) (opp_max_spread opp) (opp_tick_size opp);
             no_midpoint = 1 - opp_midpoint opp
         in if opp_midpoint opp \<le> buy_yes_price \<or> no_midpoint \<le> buy_no_price then (None, st)
            else
              (let position =
                     \<lparr>condition_id = opp_condition_id opp,
                      token_id_yes = opp_token_id_yes opp,
                      token_id_no = opp_token_id_no opp,
                      max_spread = opp_max_spread opp,
                      min_size = opp_min_size opp,
                      tick_size = opp_tick_size opp,
                      orders = [],
                      last_midpoint = opp_midpoint opp,
                      yes_inventory = 0, no_inventory = 0,
                      yes_entry_price = 0, no_entry_price = 0,
                      yes_fill_times = [], no_fill_times = [],
                      yes_last_sell_fill = 0, no_last_sell_fill = 0,
                      yes_blocked = False, no_blocked = False\<rparr>;
                   buy_size = opp_min_size opp * get_size_multiplier ex;
                   (position1, st1) =
                     place_and_track ex now st position (opp_token_id_yes opp) buy_yes_price
                       buy_size BUY (opp_condition_id opp) (opp_midpoint opp) 0;
                   (position2, st2) =
                     place_and_track ex now st1 position1 (opp_token_id_no opp) buy_no_price
                       buy_size BUY (opp_condition_id opp) (opp_midpoint opp) 0
               in if orders position2 \<noteq> []
                  then (Some position2,
                        st2\<lparr>positions :=
                              AList.update (opp_condition_id opp) position2 (positions st2)\<rparr>)
                  else (Some position2, st2))))"

text \<open>
  \<^verbatim>\<open>replace_orders\<close>. First the fill detection over the tracked orders
  (\<open>detect_fills\<close>, with \<open>detect_fill\<close> the body of its loop; it is skipped when
  \<^verbatim>\<open>get_orders\<close> raises), which updates the position in place; then
  \<^verbatim>\<open>cancel_market_orders\<close>, the new prices, the new position built from the old one,
  the BUY and SELL placements, and the assignment \<^verbatim>\<open>self.positions[condition_id] = new_position\<close>
  when the new position tracks an order.
\<close>

definition live_order_ids :: "get_orders_response \<Rightarrow> string list" where
  "live_order_ids r =
     (case r of GetOrdersList ids \<Rightarrow> filter (\<lambda>oid. oid \<noteq> []) ids | _ \<Rightarrow> [])"

definition detect_fill ::
  "exchange \<Rightarrow> rat \<Rightarrow> string list \<Rightarrow> rat \<Rightarrow> ActiveOrder \<Rightarrow> MarketPosition \<Rightarrow> MarketPosition" where
  "detect_fill ex now live_ids new_midpoint od position =
     (if order_id od \<notin> set live_ids \<and> ORDER_GRACE_PERIOD_SECONDS \<le> now - placed_at od
         \<and> side od = BUY
      then
        (let status = get_order_status ex (order_id od)
         in if status \<noteq> MATCHED \<and> status \<noteq> UNKNOWN then position
            else if token_id od = token_id_yes position
            then position\<lparr>yes_inventory := yes_inventory position + order_size od,
                          yes_entry_price := new_midpoint\<rparr>
            else position\<lparr>no_inventory := no_inventory position + order_size od,
                          no_entry_price := new_midpoint\<rparr>)
      else position)"

definition detect_fills :: "exchange \<Rightarrow> rat \<Rightarrow> rat \<Rightarrow> MarketPosition \<Rightarrow> MarketPosition" where
  "detect_fills ex now new_midpoint position0 =
     (case api_get_orders ex of
        GetOrdersRaises \<Rightarrow> position0
      | r \<Rightarrow> fold (detect_fill ex now (live_order_ids r) new_midpoint)
               (orders position0) position0)"

definition replace_orders ::
  "exchange \<Rightarrow> rat \<Rightarrow> string \<Rightarrow> rat \<Rightarrow> OrderManager \<Rightarrow> MarketPosition option \<times> OrderManager" where
  "replace_orders ex now cid new_midpoint st0 =
     (case map_of (positions st0) cid of
        None \<Rightarrow> (None, st0)
      | Some position0 \<Rightarrow>
          (let position = detect_fills ex now new_midpoint position0;
               st1 = st0\<lparr>positions := AList.update cid position (positions st0)\<rparr>;
               yes_inv = yes_inventory position;
               no_inv = no_inventory position;
               yes_entry = yes_entry_price position;
               no_entry = no_entry_price position;
               st2 = snd (cancel_market_orders ex cid st1);
               (buy_yes_price, buy_no_price) =
                 calculate_order_prices new_midpoint (max_spread position) (tick_size position);
               no_midpoint = 1 - new_midpoint
           in if new_midpoint \<le> buy_yes_price \<or> no_midpoint \<le> buy_no_price then (None, st2)
              else
                (let new_position0 =
                       \<lparr>condition_id = cid,
                        token_id_yes = token_id_yes position,
                        token_id_no = token_id_no position,
                        max_spread = max_spread position,
                        min_size = min_size position,
                        tick_size = tick_size position,
                        orders = [],
                        last_midpoint = new_midpoint,
                        yes_inventory = yes_inv, no_inventory = no_inv,
                        yes_entry_price = yes_entry, no_entry_price = no_entry,
                        yes_fill_times = yes_fill_times position,
                        no_fill_times = no_fill_times position,
                        yes_last_sell_fill = yes_last_sell_fill position,
                        no_last_sell_fill = no_last_sell_fill position,
                        yes_blocked = yes_blocked position,
                        no_blocked = no_blocked position\<rparr>;
                     global_paused = is_global_paused st2 now;
                     yes_in_cooldown =
                       (global_paused \<or> yes_blocked position
                        \<or> (0 < yes_last_sell_fill position
                            \<and> now - yes_last_sell_fill position < FILL_COOLDOWN_SECONDS));
                     no_in_cooldown =
                       (global_paused \<or> no_blocked position
                        \<or> (0 < no_last_sell_fill position
                            \<and> now - no_last_sell_fill position < FILL_COOLDOWN_SECONDS));
                     buy_size = min_size position * get_size_multiplier ex;
                     (new_position1, st3) =
                       (if yes_inv = 0 \<and> \<not> yes_in_cooldown
                        then place_and_track ex now st2 new_position0 (token_id_yes position)
                               buy_yes_price buy_size BUY cid new_midpoint 0
                        else (new_position0, st2));
                     (new_position2, st4) =
                       (if no_inv = 0 \<and> \<not> no_in_cooldown
                        then place_and_track ex now st3 new_position1 (token_id_no position)
                               buy_no_price buy_size BUY cid new_midpoint 0
                        else (new_position1, st3));
                     (new_position3, st5) =
                       (if 0 < yes_inv
                        then place_and_track ex now st4 new_position2 (token_id_yes position)
                               (calculate_sell_price new_midpoint (max_spread position)
                                  (tick_size position) True)
                               yes_inv SELL cid new_midpoint (min_size position)
                        else (new_position2, st4));
                     (new_position4, st6) =
                       (if 0 < no_inv
                        then place_and_track ex now st5 new_position3 (token_id_no position)
                               (calculate_sell_price new_midpoint (max_spread position)
                                  (tick_size position) False)
                               no_inv SELL cid new_midpoint (min_size position)
                        else (new_position3, st5))
                 in if orders new_position4 \<noteq> []
                    then (Some new_position4,
                          st6\<lparr>positions := AList.update cid new_position4 (positions st6)\<rparr>)
                    else (Some new_position4, st6))))"

text \<open>
  \<^verbatim>\<open>sync_with_exchange\<close>. The loop runs over a snapshot of the positions; \<open>missing\<close>
  is \<^verbatim>\<open>missing_count\<close>, \<open>total_tracked\<close> is the count of tracked orders. An order that is neither
  listed nor within the grace period is verified with \<^verbatim>\<open>_get_order_status\<close>: LIVE keeps
  it, CANCELLED drops it, MATCHED and UNKNOWN report a fill of the tracked size.
\<close>

definition order_visible :: "rat \<Rightarrow> string list \<Rightarrow> ActiveOrder \<Rightarrow> bool" where
  "order_visible now live_ids od \<longleftrightarrow>
     order_id od \<in> set live_ids \<or> now - placed_at od < ORDER_GRACE_PERIOD_SECONDS"

definition fill_of_order :: "string \<Rightarrow> ActiveOrder \<Rightarrow> FillEvent" where
  "fill_of_order cid od =
     \<lparr>fill_token_id = token_id od, fill_side = side od, fill_price = price od,
      fill_size = order_size od, fill_condition_id = cid\<rparr>"

fun sync_loop ::
  "exchange \<Rightarrow> rat \<Rightarrow> string list \<Rightarrow> nat \<Rightarrow> (string \<times> MarketPosition) list \<Rightarrow> nat
     \<Rightarrow> FillEvent list \<Rightarrow> OrderManager \<Rightarrow> FillEvent list \<times> OrderManager" where
  "sync_loop ex now live_ids total_tracked [] missing fills st = (fills, st)"
| "sync_loop ex now live_ids total_tracked ((cid, position) # rest) missing fills st =
     (let surviving = filter (order_visible now live_ids) (orders position);
          newly_missing = filter (\<lambda>od. \<not> order_visible now live_ids od) (orders position);
          missing_count = missing + length newly_missing
      in if total_tracked \<le> missing_count \<and> 2 < total_tracked then ([], st)
         else
           (let still_live =
                  filter (\<lambda>od. get_order_status ex (order_id od) = LIVE) newly_missing;
                filled =
                  filter (\<lambda>od. get_order_status ex (order_id od) \<noteq> LIVE
                               \<and> get_order_status ex (order_id od) \<noteq> CANCELLED) newly_missing;
                position' = position\<lparr>orders := surviving @ still_live\<rparr>
            in sync_loop ex now live_ids total_tracked rest missing_count
                 (fills @ map (fill_of_order cid) filled)
                 (st\<lparr>positions := AList.update cid position' (positions st)\<rparr>)))"

definition sync_with_exchange :: "exchange \<Rightarrow> rat \<Rightarrow> OrderManager \<Rightarrow> FillEvent list \<times> OrderManager" where
  "sync_with_exchange ex now st =
     (case api_get_orders ex of
        GetOrdersRaises \<Rightarrow> ([], st)
      | GetOrdersNone \<Rightarrow> ([], st)
      | r \<Rightarrow>
          sync_loop ex now (live_order_ids r)
            (sum_list (map (\<lambda>(cid, p). length (orders p)) (positions st)))
            (positions st) 0 [] st)"

text \<open>
  \<^verbatim>\<open>handle_filled_orders\<close>. \<open>aggregate_fills\<close> is the dict \<^verbatim>\<open>aggregated\<close> in insertion
  order; \<open>handle_fill_key\<close> is the body of the loop over its items; the clean-up loop
  ends the handler. The position is written back to \<open>positions\<close> before
  \<^verbatim>\<open>cancel_all_buys\<close> and \<^verbatim>\<open>_place_order\<close> read it (the source mutates the object the
  dict holds).
\<close>

definition aggregate_fills :: "FillEvent list \<Rightarrow> ((string \<times> string \<times> side) \<times> rat) list" where
  "aggregate_fills fills =
     fold (\<lambda>fill aggregated.
             (let key = (fill_condition_id fill, fill_token_id fill, fill_side fill)
              in AList.update key
                   ((case map_of aggregated key of None \<Rightarrow> 0 | Some v \<Rightarrow> v) + fill_size fill)
                   aggregated))
       fills []"

definition handle_fill_key ::
  "exchange \<Rightarrow> rat \<Rightarrow> (string \<times> string \<times> side) \<times> rat \<Rightarrow> OrderManager \<Rightarrow> OrderManager" where
  "handle_fill_key ex now item st =
     (case item of ((cid, tok, sd), total_size) \<Rightarrow>
        (case map_of (positions st) cid of
           None \<Rightarrow> st
         | Some position0 \<Rightarrow>
             (let is_yes = (tok = token_id_yes position0);
                  mid = midpoint_or_last ex position0;
                  position1 = position0\<lparr>last_midpoint := mid\<rparr>
              in case sd of
                   BUY \<Rightarrow>
                     (let position2 = record_buy_fill is_yes total_size mid now position1;
                          inv = inventory is_yes position2;
                          position3 = without_buys position2;
                          st1 = trip_circuit_breaker now (store_position cid position3 st);
                          position4 = block_if_runaway is_yes now position3;
                          st2 = store_position cid position4 st1
                      in if has_sell position4 tok then st2
                         else
                           (let sell_price =
                                  calculate_sell_price mid (max_spread position4)
                                    (tick_size position4) is_yes;
                                (position5, st3) =
                                  place_and_track ex now st2 position4 tok sell_price inv SELL
                                    cid mid (min_size position4)
                            in store_position cid position5 st3))
                 | SELL \<Rightarrow>
                     (let position2 =
                            (if is_yes
                             then position1\<lparr>yes_inventory :=
                                              max 0 (yes_inventory position1 - total_size),
                                            yes_entry_price := 0,
                                            yes_last_sell_fill := now\<rparr>
                             else position1\<lparr>no_inventory :=
                                              max 0 (no_inventory position1 - total_size),
                                            no_entry_price := 0,
                                            no_last_sell_fill := now\<rparr>)
                      in store_position cid position2 st))))"

definition handle_filled_orders :: "exchange \<Rightarrow> rat \<Rightarrow> FillEvent list \<Rightarrow> OrderManager \<Rightarrow> OrderManager" where
  "handle_filled_orders ex now fills st =
     cleanup_positions (fold (handle_fill_key ex now) (aggregate_fills fills) st)"

text \<open>
  \<^verbatim>\<open>retry_pending_sells\<close>. \<open>remote_balance\<close> is the on-chain check: the size of the
  first entry of the positions endpoint for the token, and 0 when there is none or the
  request raises. \<open>retry_side\<close> is the body of the inner loop for one side of one
  position, \<open>retry_position\<close> runs it for YES and then NO, and the clean-up loop ends
  the sweep.
\<close>

definition remote_balance :: "exchange \<Rightarrow> string \<Rightarrow> rat" where
  "remote_balance ex tok =
     (case api_positions ex of
        None \<Rightarrow> 0
      | Some ps \<Rightarrow> (case find (\<lambda>(asset, sz). asset = tok) ps of
                     None \<Rightarrow> 0
                   | Some (asset, sz) \<Rightarrow> sz))"

definition retry_side :: "exchange \<Rightarrow> rat \<Rightarrow> string \<Rightarrow> bool \<Rightarrow> OrderManager \<Rightarrow> OrderManager" where
  "retry_side ex now cid is_yes st =
     (case map_of (positions st) cid of
        None \<Rightarrow> st
      | Some position \<Rightarrow>
          (let tok = (if is_yes then token_id_yes position else token_id_no position);
               inv = inventory is_yes position
           in if inv \<le> 0 then st
              else if has_sell position tok then st
              else
                (let fail_key = (cid, tok);
                     fail_count = (case sell_fail_counts st fail_key of None \<Rightarrow> 0 | Some n \<Rightarrow> n)
                 in if MAX_SELL_RETRIES \<le> fail_count
                    then
                      (let actual_on_chain = remote_balance ex tok
                       in if 1 / 2 < actual_on_chain
                          then st\<lparr>sell_fail_counts := (sell_fail_counts st)(fail_key \<mapsto> 0),
                                  positions :=
                                    AList.update cid (set_inventory is_yes actual_on_chain position)
                                      (positions st)\<rparr>
                          else
                            (let position1 = set_inventory is_yes 0 position;
                                 position2 =
                                   (if is_yes then position1\<lparr>yes_entry_price := 0\<rparr>
                                    else position1\<lparr>no_entry_price := 0\<rparr>)
                             in st\<lparr>positions := AList.update cid position2 (positions st),
                                    sell_fail_counts := (sell_fail_counts st)(fail_key := None),
                                    phantom_tokens := insert tok (phantom_tokens st)\<rparr>))
                    else
                      (let last_attempt =
                             (case last_retry st fail_key of None \<Rightarrow> 0 | Some t \<Rightarrow> t)
                       in if now - last_attempt < RESCAN_INTERVAL_SECONDS then st
                          else
                            (let st1 = st\<lparr>last_retry := (last_retry st)(fail_key \<mapsto> now)\<rparr>;
                                 mid = midpoint_or_last ex position;
                                 sell_price =
                                   calculate_sell_price mid (max_spread position)
                                     (tick_size position) is_yes;
                                 (sell_order, st2) =
                                   place_order ex now st1 tok sell_price inv SELL cid mid
                                     (min_size position)
                             in case sell_order of
                                  Some od \<Rightarrow>
                                    st2\<lparr>positions :=
                                          AList.update cid (track_order position od) (positions st2),
                                        sell_fail_counts :=
                                          (sell_fail_counts st2)(fail_key := None)\<rparr>
                                | None \<Rightarrow>
                                    st2\<lparr>sell_fail_counts :=
                                          (sell_fail_counts st2)(fail_key \<mapsto> fail_count + 1)\<rparr>)))))"

definition retry_position :: "exchange \<Rightarrow> rat \<Rightarrow> string \<Rightarrow> OrderManager \<Rightarrow> OrderManager" where
  "retry_position ex now cid st = retry_side ex now cid False (retry_side ex now cid True st)"

definition retry_pending_sells :: "exchange \<Rightarrow> rat \<Rightarrow> OrderManager \<Rightarrow> OrderManager" where
  "retry_pending_sells ex now st =
     cleanup_positions (fold (retry_position ex now) (map fst (positions st)) st)"

text \<open>
  \<^verbatim>\<open>handle_ws_fill\<close>. \<open>find_order_owner\<close> is the search for the position and order
  with the event's order id; \<open>ws_untracked\<close> is the branch for an order that is not
  tracked (the first side, in dict order, whose token is the event's asset and whose
  inventory is positive). The event's own \<^verbatim>\<open>side\<close> argument is never read by the
  source; the tracked order's side decides.
\<close>

definition find_order_owner ::
  "(string \<times> MarketPosition) list \<Rightarrow> string \<Rightarrow> (string \<times> MarketPosition \<times> ActiveOrder) option" where
  "find_order_owner ps oid =
     (case find (\<lambda>(c, pos). list_ex (\<lambda>od. order_id od = oid) (orders pos)) ps of
        None \<Rightarrow> None
      | Some (c, pos) \<Rightarrow>
          (case find (\<lambda>od. order_id od = oid) (orders pos) of
             None \<Rightarrow> None
           | Some od \<Rightarrow> Some (c, pos, od)))"

definition ws_untracked_side ::
  "rat \<Rightarrow> string \<Rightarrow> bool \<Rightarrow> MarketPosition \<Rightarrow> rat \<Rightarrow> OrderManager \<Rightarrow> OrderManager" where
  "ws_untracked_side now c is_yes pos size_matched st =
     (let tid = (if is_yes then token_id_yes pos else token_id_no pos);
          inv = inventory is_yes pos;
          new_inv = max 0 (inv - size_matched);
          pos1 = set_inventory is_yes new_inv pos;
          pos2 =
            (if new_inv = 0
             then (if is_yes then pos1\<lparr>yes_entry_price := 0, yes_last_sell_fill := now\<rparr>
                   else pos1\<lparr>no_entry_price := 0, no_last_sell_fill := now\<rparr>)
             else pos1);
          pos3 =
            pos2\<lparr>orders := filter (\<lambda>od. \<not> (side od = SELL \<and> token_id od = tid)) (orders pos2)\<rparr>
      in if position_closed pos3 then st\<lparr>positions := AList.delete c (positions st)\<rparr>
         else st\<lparr>positions := AList.update c pos3 (positions st)\<rparr>)"

fun ws_untracked ::
  "rat \<Rightarrow> string \<Rightarrow> rat \<Rightarrow> (string \<times> MarketPosition) list \<Rightarrow> OrderManager \<Rightarrow> OrderManager" where
  "ws_untracked now asset_id size_matched [] st = st"
| "ws_untracked now asset_id size_matched ((c, pos) # rest) st =
     (if token_id_yes pos = asset_id \<and> 0 < yes_inventory pos
      then ws_untracked_side now c True pos size_matched st
      else if token_id_no pos = asset_id \<and> 0 < no_inventory pos
      then ws_untracked_side now c False pos size_matched st
      else ws_untracked now asset_id size_matched rest st)"

fun set_first_size :: "string \<Rightarrow> rat \<Rightarrow> ActiveOrder list \<Rightarrow> ActiveOrder list" where
  "set_first_size oid r [] = []"
| "set_first_size oid r (od # ods) =
     (if order_id od = oid then od\<lparr>order_size := r\<rparr> # ods
      else od # set_first_size oid r ods)"

definition close_if_empty :: "string \<Rightarrow> MarketPosition \<Rightarrow> OrderManager \<Rightarrow> OrderManager" where
  "close_if_empty cid position st =
     (if position_closed position then st\<lparr>positions := AList.delete cid (positions st)\<rparr>
      else st)"

definition record_sell_fill :: "bool \<Rightarrow> rat \<Rightarrow> rat \<Rightarrow> MarketPosition \<Rightarrow> MarketPosition" where
  "record_sell_fill is_yes size_matched now position1 =
     (if is_yes
      then (let p = position1\<lparr>yes_inventory := max 0 (yes_inventory position1 - size_matched)\<rparr>
            in if yes_inventory p = 0
               then p\<lparr>yes_entry_price := 0, yes_last_sell_fill := now\<rparr>
               else p)
      else (let p = position1\<lparr>no_inventory := max 0 (no_inventory position1 - size_matched)\<rparr>
            in if no_inventory p = 0
               then p\<lparr>no_entry_price := 0, no_last_sell_fill := now\<rparr>
               else p))"

definition handle_ws_fill ::
  "exchange \<Rightarrow> rat \<Rightarrow> string \<Rightarrow> string \<Rightarrow> side \<Rightarrow> rat \<Rightarrow> rat \<Rightarrow> OrderManager \<Rightarrow> OrderManager" where
  "handle_ws_fill ex now oid asset_id event_side size_matched fill_px st =
     (case find_order_owner (positions st) oid of
        None \<Rightarrow> ws_untracked now asset_id size_matched (positions st) st
      | Some (cid, position0, matched_order) \<Rightarrow>
          (let actual_side = side matched_order;
               is_yes = (token_id matched_order = token_id_yes position0);
               remaining = order_size matched_order - size_matched;
               position1 =
                 (if 1 / 1000 < remaining
                  then position0\<lparr>orders := set_first_size oid remaining (orders position0)\<rparr>
                  else position0\<lparr>orders := filter (\<lambda>od. order_id od \<noteq> oid) (orders position0)\<rparr>)
           in case actual_side of
                BUY \<Rightarrow>
                  (let position2 = without_buys position1;
                       st1 = trip_circuit_breaker now (store_position cid position2 st);
                       st2 = blacklist_market now cid st1;
                       position3 = record_buy_fill is_yes size_matched fill_px now position2;
                       position4 = block_if_runaway is_yes now position3;
                       tok = token_id matched_order;
                       st3 = store_position cid position4 st2
                   in if has_sell position4 tok then st3
                      else
                        (let mid = midpoint_or_last ex position4;
                             position5 = position4\<lparr>last_midpoint := mid\<rparr>;
                             st4 = store_position cid position5 st3;
                             inv = inventory is_yes position5;
                             sell_price =
                               calculate_sell_price mid (max_spread position5)
                                 (tick_size position5) is_yes;
                             (position6, st5) =
                               place_and_track ex now st4 position5 tok sell_price inv SELL cid mid
                                 (min_size position5)
                         in close_if_empty cid position6 (store_position cid position6 st5)))
              | SELL \<Rightarrow>
                  (let position2 = record_sell_fill is_yes size_matched now position1
                   in close_if_empty cid position2 (store_position cid position2 st))))"

text \<open>
  \<^verbatim>\<open>process_cooldown_reentries\<close>: \<open>reentry_side\<close> is the body of the inner loop,
  \<open>reentry_position\<close> the body of the outer one. The source fetches the midpoint once
  per position and keeps it; here it is read from the exchange where it is used, which
  answers the same within one call.
\<close>

definition reentry_side :: "exchange \<Rightarrow> rat \<Rightarrow> string \<Rightarrow> bool \<Rightarrow> OrderManager \<Rightarrow> OrderManager" where
  "reentry_side ex now cid is_yes st =
     (case map_of (positions st) cid of
        None \<Rightarrow> st
      | Some position \<Rightarrow>
          (let tok = (if is_yes then token_id_yes position else token_id_no position);
               last_sell = last_sell_fill is_yes position
           in if last_sell = 0 then st
              else if (if is_yes then yes_blocked position else no_blocked position) then st
              else if 0 < inventory is_yes position then st
              else if now - last_sell < FILL_COOLDOWN_SECONDS then st
              else if has_buy position tok then st
              else
                (let mid = midpoint_or_last ex position;
                     (buy_yes_price, buy_no_price) =
                       calculate_order_prices mid (max_spread position) (tick_size position);
                     buy_price = (if is_yes then buy_yes_price else buy_no_price);
                     reentry_size = min_size position * get_size_multiplier ex;
                     (buy_order, st1) =
                       place_order ex now st tok buy_price reentry_size BUY cid mid 0
                 in case buy_order of
                      None \<Rightarrow> st1
                    | Some od \<Rightarrow>
                        (let position1 = track_order position od;
                             position2 =
                               (if is_yes then position1\<lparr>yes_last_sell_fill := 0\<rparr>
                                else position1\<lparr>no_last_sell_fill := 0\<rparr>)
                         in st1\<lparr>positions := AList.update cid position2 (positions st1)\<rparr>))))"

definition reentry_position :: "exchange \<Rightarrow> rat \<Rightarrow> string \<Rightarrow> OrderManager \<Rightarrow> OrderManager" where
  "reentry_position ex now cid st =
     (let (blacklisted, st1) = is_blacklisted now cid st
      in if blacklisted then st1
         else reentry_side ex now cid False (reentry_side ex now cid True st1))"

definition process_cooldown_reentries :: "exchange \<Rightarrow> rat \<Rightarrow> OrderManager \<Rightarrow> OrderManager" where
  "process_cooldown_reentries ex now st =
     (if is_global_paused st now then st
      else fold (reentry_position ex now) (map fst (positions st)) st)"

section \<open>The Supervisor's recovery SELL\<close>

text \<open>
  \<^verbatim>\<open>LPRewardsBot._place_recovery_sell\<close> of \<^verbatim>\<open>bot.py\<close>, as the order it posts: the
  request and its order type, or \<open>None\<close> when a call before \<^verbatim>\<open>post_order\<close> raises (a
  tick of zero raises ZeroDivisionError inside the same \<^verbatim>\<open>try\<close>). The midpoint is
  the raw answer of the exchange. A recovery SELL belongs to no tracked market: its
  \<open>req_condition_id\<close> is empty.
\<close>

definition place_recovery_sell :: "exchange \<Rightarrow> string \<Rightarrow> rat \<Rightarrow> (order_request \<times> order_type) option" where
  "place_recovery_sell ex tok sz =
     (case api_midpoint ex tok of
        None \<Rightarrow> None
      | Some mid \<Rightarrow>
          (case api_tick_size ex tok of
             None \<Rightarrow> None
           | Some tick \<Rightarrow>
               if \<not> api_update_allowance ex tok then None
               else if tick = 0 then None
               else
                 (let sell_price = round_price_down mid tick;
                      sell_price = clamp_price sell_price tick;
                      req = \<lparr>req_condition_id = [], req_token_id = tok, req_side = SELL,
                              req_price = sell_price, req_size = sz\<rparr>
                  in case api_min_order_size ex tok of
                       None \<Rightarrow> None
                     | Some min_sz \<Rightarrow>
                         if 0 < min_sz \<and> sz < min_sz then Some (req, FOK)
                         else Some (req, GTC))))"
section \<open>Vocabulary of the statements\<close>

text \<open>
  Counts used to say when \<^verbatim>\<open>sync_with_exchange\<close> runs to its end: the tracked orders,
  the tracked orders that are neither listed nor within the grace period, and the fills
  the loop reports when its guard against a bulk disappearance does not stop it.
\<close>

definition tracked_count :: "OrderManager \<Rightarrow> nat" where
  "tracked_count st = sum_list (map (\<lambda>(cid, p). length (orders p)) (positions st))"

definition missing_count_of ::
  "rat \<Rightarrow> string list \<Rightarrow> (string \<times> MarketPosition) list \<Rightarrow> nat" where
  "missing_count_of now live_ids ps =
     sum_list (map (\<lambda>(cid, p). length (filter (\<lambda>od. \<not> order_visible now live_ids od) (orders p))) ps)"

definition reported_fills ::
  "exchange \<Rightarrow> rat \<Rightarrow> string list \<Rightarrow> (string \<times> MarketPosition) list \<Rightarrow> FillEvent list" where
  "reported_fills ex now live_ids ps =
     concat (map (\<lambda>(cid, p).
        map (fill_of_order cid)
          (filter (\<lambda>od. get_order_status ex (order_id od) \<noteq> LIVE
                       \<and> get_order_status ex (order_id od) \<noteq> CANCELLED)
             (filter (\<lambda>od. \<not> order_visible now live_ids od) (orders p)))) ps)"

text \<open>
  What \<^verbatim>\<open>_place_order\<close> hands to the exchange: \<open>request_of\<close> is the request it appends
  to \<open>submitted\<close>, and \<open>order_reaches_exchange\<close> says when it does so: the sanity
  checks pass and, for a BUY, the inventory cap of the tracked position allows the size,
  for a SELL, the allowance update succeeds. \<open>buys_submitted\<close> are the BUY requests of
  the trace.
\<close>

definition inventory_cap_ok :: "OrderManager \<Rightarrow> string \<Rightarrow> string \<Rightarrow> rat \<Rightarrow> bool" where
  "inventory_cap_ok st cid tok sz \<longleftrightarrow>
     (case map_of (positions st) cid of
        None \<Rightarrow> True
      | Some position \<Rightarrow>
          \<not> MAX_INVENTORY_PER_SIDE
               < (if tok = token_id_yes position then yes_inventory position
                  else no_inventory position) + sz)"

definition order_reaches_exchange ::
  "exchange \<Rightarrow> OrderManager \<Rightarrow> string \<Rightarrow> rat \<Rightarrow> rat \<Rightarrow> side \<Rightarrow> string \<Rightarrow> bool" where
  "order_reaches_exchange ex st tok pr sz sd cid \<longleftrightarrow>
     order_checks_pass pr sz
     \<and> (case sd of BUY \<Rightarrow> inventory_cap_ok st cid tok sz | SELL \<Rightarrow> api_update_allowance ex tok)"

definition request_of :: "string \<Rightarrow> string \<Rightarrow> side \<Rightarrow> rat \<Rightarrow> rat \<Rightarrow> order_request" where
  "request_of cid tok sd pr sz =
     \<lparr>req_condition_id = cid, req_token_id = tok, req_side = sd, req_price = pr, req_size = sz\<rparr>"

definition buys_submitted :: "OrderManager \<Rightarrow> order_request list" where
  "buys_submitted st = filter (\<lambda>r. req_side r = BUY) (submitted st)"

text \<open>
  The tokens of the SELL orders a position tracks, in order; a position tracks at most
  one SELL per token when they are distinct, and \<open>sell_unique\<close> says so of every
  position of the ledger.
\<close>

definition sell_tokens :: "MarketPosition \<Rightarrow> string list" where
  "sell_tokens p = map token_id (filter (\<lambda>od. side od = SELL) (orders p))"

definition sell_unique :: "OrderManager \<Rightarrow> bool" where
  "sell_unique st \<longleftrightarrow> list_all (\<lambda>(cid, p). distinct (sell_tokens p)) (positions st)"

text \<open>
  The ledger is a dictionary: its keys are distinct. Order ids are handed out by the
  exchange; \<open>order_ids_distinct\<close> says that no position tracks two orders under the
  same id.
\<close>

definition keys_distinct :: "OrderManager \<Rightarrow> bool" where
  "keys_distinct st \<longleftrightarrow> distinct (map fst (positions st))"

definition order_ids_distinct :: "OrderManager \<Rightarrow> bool" where
  "order_ids_distinct st \<longleftrightarrow>
     list_all (\<lambda>(cid, p). distinct (map order_id (orders p))) (positions st)"

definition ledger_ok :: "OrderManager \<Rightarrow> bool" where
  "ledger_ok st \<longleftrightarrow> keys_distinct st \<and> sell_unique st"

text \<open>
  The requests a handler submitted: what \<open>submitted\<close> holds after it beyond what it held
  before. \<open>sell_not_tracked st r\<close>: the market of request \<open>r\<close> is in the ledger \<open>st\<close> and
  tracks no SELL for the token of \<open>r\<close>.
\<close>

definition new_submissions :: "OrderManager \<Rightarrow> OrderManager \<Rightarrow> order_request list" where
  "new_submissions st st' = drop (length (submitted st)) (submitted st')"

definition sell_not_tracked :: "OrderManager \<Rightarrow> order_request \<Rightarrow> bool" where
  "sell_not_tracked st r \<longleftrightarrow>
     (case map_of (positions st) (req_condition_id r) of
        None \<Rightarrow> False
      | Some p \<Rightarrow> \<not> has_sell p (req_token_id r))"

text \<open>
  The two fill handlers, run one after the other on any inputs: a batch of fills found
  by polling (\<open>handle_filled_orders\<close>) or one trade event of the user channel
  (\<open>handle_ws_fill\<close>), each with the exchange and the clock of its call.
\<close>

datatype fill_input =
    RestFills "FillEvent list"
  | WsFill string string side rat rat

fun apply_fill_input :: "exchange \<times> rat \<times> fill_input \<Rightarrow> OrderManager \<Rightarrow> OrderManager" where
  "apply_fill_input (ex, now, RestFills fills) st = handle_filled_orders ex now fills st"
| "apply_fill_input (ex, now, WsFill oid asset_id event_side size_matched fill_px) st =
     handle_ws_fill ex now oid asset_id event_side size_matched fill_px st"

definition run_fill_inputs :: "(exchange \<times> rat \<times> fill_input) list \<Rightarrow> OrderManager \<Rightarrow> OrderManager" where
  "run_fill_inputs evs st = fold apply_fill_input evs st"

text \<open>
  A batch of fills for one key: at least one fill, all of them for the same condition
  id, token id and side.
\<close>

definition same_key_fills :: "string \<Rightarrow> string \<Rightarrow> side \<Rightarrow> FillEvent list \<Rightarrow> bool" where
  "same_key_fills cid tok sd fills \<longleftrightarrow>
     fills \<noteq> []
     \<and> list_all (\<lambda>f. fill_condition_id f = cid \<and> fill_token_id f = tok \<and> fill_side f = sd) fills"

text \<open>
  The SELL that \<open>replace_orders\<close> submits for one side of a position: one request for
  the side's inventory at the SELL price, when the inventory is positive, the request
  passes the checks of \<^verbatim>\<open>_place_order\<close> and the allowance refresh succeeds.
  \<open>paused_replacement\<close> lists these requests for both sides of the market, YES first,
  on the position as the fill detection of \<open>replace_orders\<close> leaves it; it is empty when
  the market is not tracked or the new prices are refused.
\<close>

definition sell_request_for ::
  "exchange \<Rightarrow> string \<Rightarrow> rat \<Rightarrow> MarketPosition \<Rightarrow> bool \<Rightarrow> order_request list" where
  "sell_request_for ex cid mid p is_yes =
     (let tok = (if is_yes then token_id_yes p else token_id_no p);
          sell_price = calculate_sell_price mid (max_spread p) (tick_size p) is_yes;
          inv = inventory is_yes p
      in if 0 < inv \<and> order_checks_pass sell_price inv \<and> api_update_allowance ex tok
         then [request_of cid tok SELL sell_price inv]
         else [])"

definition paused_replacement ::
  "exchange \<Rightarrow> rat \<Rightarrow> string \<Rightarrow> rat \<Rightarrow> OrderManager \<Rightarrow> order_request list" where
  "paused_replacement ex now cid new_midpoint st =
     (case map_of (positions st) cid of
        None \<Rightarrow> []
      | Some position0 \<Rightarrow>
          (let position = detect_fills ex now new_midpoint position0;
               prices = calculate_order_prices new_midpoint (max_spread position)
                          (tick_size position)
           in if new_midpoint \<le> fst prices \<or> 1 - new_midpoint \<le> snd prices then []
              else sell_request_for ex cid new_midpoint position True
                   @ sell_request_for ex cid new_midpoint position False))"
section \<open>Concrete inputs\<close>

text \<open>
  A market ''C'' with tokens ''Y'' and ''N'', \<open>max_spread\<close> 0.03, \<open>min_size\<close> 50 and tick
  0.01 at midpoint 0.50; an exchange that accepts every request, lists no open order and
  reports no midpoint (so the handlers fall back to \<open>last_midpoint\<close>); and an Order
  Manager that tracks this one market. The examples below evaluate the operations on
  variations of these.
\<close>

definition quiet_exchange :: exchange where
  "quiet_exchange =
     \<lparr>api_midpoint = (\<lambda>tok. None),
      api_cancel = (\<lambda>oid. True),
      api_update_allowance = (\<lambda>tok. True),
      api_post_order = (\<lambda>req ty. PostOk ''sell-1''),
      api_get_order = (\<lambda>oid. GetOrderDict ''LIVE'' SizeAbsent),
      api_get_orders = GetOrdersList [],
      api_positions = Some [],
      api_tick_size = (\<lambda>tok. Some (1 / 100)),
      api_min_order_size = (\<lambda>tok. Some 0),
      peak_hours = False\<rparr>"

definition demo_position :: MarketPosition where
  "demo_position =
     \<lparr>condition_id = ''C'', token_id_yes = ''Y'', token_id_no = ''N'',
      max_spread = 3 / 100, min_size = 50, tick_size = 1 / 100,
      orders = [], last_midpoint = 1 / 2,
      yes_inventory = 0, no_inventory = 0, yes_entry_price = 0, no_entry_price = 0,
      yes_fill_times = [], no_fill_times = [],
      yes_last_sell_fill = 0, no_last_sell_fill = 0,
      yes_blocked = False, no_blocked = False\<rparr>"

definition demo_order :: "string \<Rightarrow> string \<Rightarrow> side \<Rightarrow> rat \<Rightarrow> rat \<Rightarrow> ActiveOrder" where
  "demo_order oid tok sd pr sz =
     \<lparr>order_id = oid, token_id = tok, side = sd, price = pr, order_size = sz,
      order_condition_id = ''C'', placed_at = 0, midpoint_at_placement = 1 / 2\<rparr>"

definition demo_manager :: "MarketPosition \<Rightarrow> OrderManager" where
  "demo_manager p =
     \<lparr>positions = [(''C'', p)],
      sell_fail_counts = (\<lambda>k. None),
      last_retry = (\<lambda>k. None),
      phantom_tokens = {},
      last_global_fill = 0,
      market_blacklist = (\<lambda>c. None),
      submitted = []\<rparr>"

definition demo_fill :: "string \<Rightarrow> side \<Rightarrow> rat \<Rightarrow> FillEvent" where
  "demo_fill tok sd sz =
     \<lparr>fill_token_id = tok, fill_side = sd, fill_price = 12 / 25, fill_size = sz,
      fill_condition_id = ''C''\<rparr>"
section \<open>Ledger lemmas\<close>

text \<open>
  What the helpers of the fill handlers keep of the state: the fields they do not
  touch, the SELL orders a position tracks, the keys of the ledger, the requests
  submitted.
\<close>

section \<open>Facts about the building blocks\<close>

lemma place_order_state:
  "snd (place_order ex now st tok pr sz sd cid mid mo)
     = st\<lparr>submitted := submitted st
           @ (if order_reaches_exchange ex st tok pr sz sd cid
              then [request_of cid tok sd pr sz] else [])\<rparr>"
  by (cases sd)
     (auto simp: place_order_def order_reaches_exchange_def order_checks_pass_def
        inventory_cap_ok_def request_of_def Let_def
        split: option.splits post_response.splits)

lemma place_order_result:
  assumes "fst (place_order ex now st tok pr sz sd cid mid mo) = Some od"
  shows "token_id od = tok" and "side od = sd" and "order_size od = sz" and "price od = pr"
    and "order_reaches_exchange ex st tok pr sz sd cid"
  using assms
  by (auto simp: place_order_def order_reaches_exchange_def order_checks_pass_def
        inventory_cap_ok_def Let_def
        split: option.splits post_response.splits if_splits side.splits)

lemma place_and_track_state:
  "snd (place_and_track ex now st p tok pr sz sd cid mid mo)
     = st\<lparr>submitted := submitted st
           @ (if order_reaches_exchange ex st tok pr sz sd cid
              then [request_of cid tok sd pr sz] else [])\<rparr>"
proof -
  have "snd (place_and_track ex now st p tok pr sz sd cid mid mo)
          = snd (place_order ex now st tok pr sz sd cid mid mo)"
    by (simp add: place_and_track_def split_beta split: option.splits)
  then show ?thesis by (simp only: place_order_state)
qed

lemma place_and_track_position:
  "fst (place_and_track ex now st p tok pr sz sd cid mid mo) = p
   \<or> (\<exists>od. fst (place_and_track ex now st p tok pr sz sd cid mid mo) = track_order p od
            \<and> token_id od = tok \<and> side od = sd \<and> order_size od = sz \<and> price od = pr)"
proof (cases "fst (place_order ex now st tok pr sz sd cid mid mo)")
  case None
  then show ?thesis by (simp add: place_and_track_def split_beta)
next
  case (Some od)
  then have "fst (place_and_track ex now st p tok pr sz sd cid mid mo) = track_order p od"
    by (simp add: place_and_track_def split_beta)
  then show ?thesis
    using place_order_result(1-4)[OF Some] by blast
qed

lemma track_order_fields [simp]:
  "token_id_yes (track_order p od) = token_id_yes p"
  "token_id_no (track_order p od) = token_id_no p"
  "yes_inventory (track_order p od) = yes_inventory p"
  "no_inventory (track_order p od) = no_inventory p"
  "yes_entry_price (track_order p od) = yes_entry_price p"
  "no_entry_price (track_order p od) = no_entry_price p"
  "yes_last_sell_fill (track_order p od) = yes_last_sell_fill p"
  "no_last_sell_fill (track_order p od) = no_last_sell_fill p"
  "tick_size (track_order p od) = tick_size p"
  by (simp_all add: track_order_def)

lemma without_buys_fields [simp]:
  "orders (without_buys p) = filter (\<lambda>od. side od \<noteq> BUY) (orders p)"
  "token_id_yes (without_buys p) = token_id_yes p"
  "token_id_no (without_buys p) = token_id_no p"
  "yes_inventory (without_buys p) = yes_inventory p"
  "no_inventory (without_buys p) = no_inventory p"
  "yes_entry_price (without_buys p) = yes_entry_price p"
  "no_entry_price (without_buys p) = no_entry_price p"
  "tick_size (without_buys p) = tick_size p"
  "max_spread (without_buys p) = max_spread p"
  "min_size (without_buys p) = min_size p"
  "last_midpoint (without_buys p) = last_midpoint p"
  by (simp_all add: without_buys_def)

lemma record_buy_fill_fields [simp]:
  "orders (record_buy_fill b sz e now p) = orders p"
  "token_id_yes (record_buy_fill b sz e now p) = token_id_yes p"
  "token_id_no (record_buy_fill b sz e now p) = token_id_no p"
  "tick_size (record_buy_fill b sz e now p) = tick_size p"
  "max_spread (record_buy_fill b sz e now p) = max_spread p"
  "min_size (record_buy_fill b sz e now p) = min_size p"
  "last_midpoint (record_buy_fill b sz e now p) = last_midpoint p"
  "inventory b (record_buy_fill b sz e now p) = inventory b p + sz"
  by (simp_all add: record_buy_fill_def inventory_def)

lemma block_if_runaway_fields [simp]:
  "orders (block_if_runaway b now p) = orders p"
  "token_id_yes (block_if_runaway b now p) = token_id_yes p"
  "token_id_no (block_if_runaway b now p) = token_id_no p"
  "yes_inventory (block_if_runaway b now p) = yes_inventory p"
  "no_inventory (block_if_runaway b now p) = no_inventory p"
  "tick_size (block_if_runaway b now p) = tick_size p"
  "max_spread (block_if_runaway b now p) = max_spread p"
  "min_size (block_if_runaway b now p) = min_size p"
  "last_midpoint (block_if_runaway b now p) = last_midpoint p"
  by (simp_all add: block_if_runaway_def Let_def)

lemma inventory_cong:
  "yes_inventory p' = yes_inventory p \<Longrightarrow> no_inventory p' = no_inventory p
     \<Longrightarrow> inventory b p' = inventory b p"
  by (simp add: inventory_def)

lemma store_position_fields [simp]:
  "positions (store_position cid p st) = AList.update cid p (positions st)"
  "submitted (store_position cid p st) = submitted st"
  "last_global_fill (store_position cid p st) = last_global_fill st"
  "market_blacklist (store_position cid p st) = market_blacklist st"
  "sell_fail_counts (store_position cid p st) = sell_fail_counts st"
  "phantom_tokens (store_position cid p st) = phantom_tokens st"
  by (simp_all add: store_position_def)

lemma cancel_all_buys_fields [simp]:
  "positions (cancel_all_buys st) = map (\<lambda>(cid, p). (cid, without_buys p)) (positions st)"
  "submitted (cancel_all_buys st) = submitted st"
  "last_global_fill (cancel_all_buys st) = last_global_fill st"
  "market_blacklist (cancel_all_buys st) = market_blacklist st"
  by (simp_all add: cancel_all_buys_def)

lemma trip_circuit_breaker_fields [simp]:
  "positions (trip_circuit_breaker now st) = map (\<lambda>(cid, p). (cid, without_buys p)) (positions st)"
  "submitted (trip_circuit_breaker now st) = submitted st"
  "last_global_fill (trip_circuit_breaker now st) = now"
  "market_blacklist (trip_circuit_breaker now st) = market_blacklist st"
  by (simp_all add: trip_circuit_breaker_def GLOBAL_CIRCUIT_BREAKER_def)

lemma blacklist_market_fields [simp]:
  "positions (blacklist_market now cid st) = positions st"
  "submitted (blacklist_market now cid st) = submitted st"
  "last_global_fill (blacklist_market now cid st) = last_global_fill st"
  "market_blacklist (blacklist_market now cid st) = (market_blacklist st)(cid \<mapsto> now)"
  by (simp_all add: blacklist_market_def)

section \<open>SELL orders per token\<close>

lemma sell_tokens_cong: "orders p' = orders p \<Longrightarrow> sell_tokens p' = sell_tokens p"
  by (simp add: sell_tokens_def)

lemma has_sell_iff: "has_sell p tok \<longleftrightarrow> tok \<in> set (sell_tokens p)"
  by (auto simp: has_sell_def sell_tokens_def list_ex_iff)

lemma sell_tokens_without_buys [simp]: "sell_tokens (without_buys p) = sell_tokens p"
proof -
  have "filter (\<lambda>od. side od = SELL) (filter (\<lambda>od. side od \<noteq> BUY) xs)
          = filter (\<lambda>od. side od = SELL) xs" for xs :: "ActiveOrder list"
    by (induction xs) auto
  then show ?thesis by (simp add: sell_tokens_def)
qed

lemma sell_tokens_simps [simp]:
  "sell_tokens (record_buy_fill b sz e now p) = sell_tokens p"
  "sell_tokens (block_if_runaway b now p) = sell_tokens p"
  "sell_tokens (p\<lparr>last_midpoint := m\<rparr>) = sell_tokens p"
  by (simp_all add: sell_tokens_def)

lemma sell_tokens_track_order:
  "sell_tokens (track_order p od)
     = (if MAX_ORDERS_PER_MARKET \<le> length (orders p) \<or> side od = BUY then sell_tokens p
        else sell_tokens p @ [token_id od])"
  by (cases "side od") (simp_all add: track_order_def sell_tokens_def)

lemma place_and_track_sell_distinct:
  assumes "distinct (sell_tokens p)" and "\<not> has_sell p tok"
  shows "distinct (sell_tokens (fst (place_and_track ex now st p tok pr sz sd cid mid mo)))"
  using place_and_track_position[of ex now st p tok pr sz sd cid mid mo] assms
  by (auto simp: sell_tokens_track_order has_sell_iff)

lemma sell_unique_cong: "positions st' = positions st \<Longrightarrow> sell_unique st' = sell_unique st"
  by (simp add: sell_unique_def)

lemma sell_unique_submitted [simp]: "sell_unique (st\<lparr>submitted := x\<rparr>) = sell_unique st"
  by (simp add: sell_unique_def)

lemma sell_unique_lookup:
  assumes "sell_unique st" and "map_of (positions st) cid = Some p"
  shows "distinct (sell_tokens p)"
  using assms map_of_SomeD[of "positions st" cid p]
  by (auto simp: sell_unique_def list_all_iff)

lemma list_all_update:
  assumes "list_all P ps" and "P (k, v)"
  shows "list_all P (AList.update k v ps)"
  using assms by (induction ps) auto

lemma sell_unique_store:
  assumes "sell_unique st" and "distinct (sell_tokens p)"
  shows "sell_unique (store_position cid p st)"
  using assms by (simp add: sell_unique_def list_all_update)

lemma sell_unique_without_buys:
  "list_all (\<lambda>(cid, p). distinct (sell_tokens p)) (map (\<lambda>(cid, p). (cid, without_buys p)) ps)
     = list_all (\<lambda>(cid, p). distinct (sell_tokens p)) ps"
  by (induction ps) auto

lemma sell_unique_breaker [simp]:
  "sell_unique (trip_circuit_breaker now st) = sell_unique st"
  by (simp add: sell_unique_def sell_unique_without_buys)

lemma sell_unique_delete:
  "sell_unique st \<Longrightarrow> sell_unique (st\<lparr>positions := AList.delete cid (positions st)\<rparr>)"
  by (simp add: sell_unique_def AList.delete_eq list_all_iff)

lemma sell_unique_cleanup: "sell_unique st \<Longrightarrow> sell_unique (cleanup_positions st)"
  by (simp add: sell_unique_def cleanup_positions_def list_all_iff)

section \<open>handle_fill_key\<close>

lemma handle_fill_key_submitted:
  "submitted (handle_fill_key ex now ((cid, tok, sd), total_size) st)
     = submitted st
       @ (case map_of (positions st) cid of
            None \<Rightarrow> []
          | Some p0 \<Rightarrow>
              if sd = BUY \<and> \<not> has_sell p0 tok
                 \<and> order_checks_pass
                      (calculate_sell_price (midpoint_or_last ex p0) (max_spread p0) (tick_size p0)
                         (tok = token_id_yes p0))
                      (inventory (tok = token_id_yes p0) p0 + total_size)
                 \<and> api_update_allowance ex tok
              then [request_of cid tok SELL
                      (calculate_sell_price (midpoint_or_last ex p0) (max_spread p0) (tick_size p0)
                         (tok = token_id_yes p0))
                      (inventory (tok = token_id_yes p0) p0 + total_size)]
              else [])"
proof (cases "map_of (positions st) cid")
  case None
  then show ?thesis by (simp add: handle_fill_key_def)
next
  case (Some p0)
  show ?thesis
  proof (cases sd)
    case BUY
    have i: "inventory b (p\<lparr>last_midpoint := m\<rparr>) = inventory b p" for b p m
      by (simp add: inventory_def)
    show ?thesis
      using Some BUY
      by (simp add: handle_fill_key_def Let_def split_beta place_and_track_state has_sell_iff
          order_reaches_exchange_def i)
  next
    case SELL
    then show ?thesis using Some by (simp add: handle_fill_key_def Let_def)
  qed
qed

lemma handle_fill_key_sell_unique:
  assumes "sell_unique st"
  shows "sell_unique (handle_fill_key ex now item st)"
proof -
  obtain cid tok sd total_size where item: "item = ((cid, tok, sd), total_size)"
    by (cases item) auto
  show ?thesis
  proof (cases "map_of (positions st) cid")
    case None
    then show ?thesis using assms by (simp add: handle_fill_key_def item)
  next
    case (Some p0)
    have d: "distinct (sell_tokens p0)" by (rule sell_unique_lookup[OF assms Some])
    show ?thesis
    proof (cases sd)
      case BUY
      define p4 where "p4 = block_if_runaway (tok = token_id_yes p0) now
          (without_buys (record_buy_fill (tok = token_id_yes p0) total_size
             (midpoint_or_last ex p0) now (p0\<lparr>last_midpoint := midpoint_or_last ex p0\<rparr>)))"
      define st2 where "st2 = store_position cid p4
          (trip_circuit_breaker now (store_position cid
             (without_buys (record_buy_fill (tok = token_id_yes p0) total_size
                (midpoint_or_last ex p0) now (p0\<lparr>last_midpoint := midpoint_or_last ex p0\<rparr>))) st))"
      have d4: "distinct (sell_tokens p4)" using d by (simp add: p4_def)
      have u2: "sell_unique st2"
        unfolding st2_def using assms d d4
        by (intro sell_unique_store) (simp_all add: sell_unique_store p4_def)
      have "handle_fill_key ex now item st = st2
          \<or> (\<not> has_sell p4 tok \<and> (\<exists>pr sz mid mo. handle_fill_key ex now item st
                = store_position cid (fst (place_and_track ex now st2 p4 tok pr sz SELL cid mid mo))
                    (snd (place_and_track ex now st2 p4 tok pr sz SELL cid mid mo))))"
        using Some BUY
        by (auto simp add: handle_fill_key_def item Let_def split_beta p4_def st2_def)
      then show ?thesis
        using u2 d4
        by (auto simp: place_and_track_state intro!: sell_unique_store place_and_track_sell_distinct)
    next
      case SELL
      have "distinct (sell_tokens (p0\<lparr>last_midpoint := m, yes_inventory := a, yes_entry_price := b,
                yes_last_sell_fill := c\<rparr>))"
        "distinct (sell_tokens (p0\<lparr>last_midpoint := m, no_inventory := a, no_entry_price := b,
                no_last_sell_fill := c\<rparr>))" for m a b c
        using d by (simp_all add: sell_tokens_def)
      then show ?thesis
        using Some SELL assms
        by (simp add: handle_fill_key_def item Let_def sell_unique_store)
    qed
  qed
qed

section \<open>Keys\<close>

lemma keys_distinct_cong: "positions st' = positions st \<Longrightarrow> keys_distinct st' = keys_distinct st"
  by (simp add: keys_distinct_def)

lemma keys_distinct_submitted [simp]: "keys_distinct (st\<lparr>submitted := x\<rparr>) = keys_distinct st"
  by (simp add: keys_distinct_def)

lemma keys_distinct_store: "keys_distinct st \<Longrightarrow> keys_distinct (store_position cid p st)"
  by (simp add: keys_distinct_def distinct_update)

lemma map_fst_without_buys: "map (fst \<circ> (\<lambda>(cid, p). (cid, without_buys p))) ps = map fst ps"
  by (induction ps) auto

lemma keys_distinct_breaker [simp]: "keys_distinct (trip_circuit_breaker now st) = keys_distinct st"
  by (simp add: keys_distinct_def map_fst_without_buys)

lemma keys_distinct_blacklist [simp]: "keys_distinct (blacklist_market now cid st) = keys_distinct st"
  by (simp add: keys_distinct_def)

lemma sell_unique_blacklist [simp]: "sell_unique (blacklist_market now cid st) = sell_unique st"
  by (simp add: sell_unique_def)

lemma keys_distinct_delete:
  "keys_distinct st \<Longrightarrow> keys_distinct (st\<lparr>positions := AList.delete cid (positions st)\<rparr>)"
  by (simp add: keys_distinct_def distinct_delete)

lemma keys_distinct_cleanup: "keys_distinct st \<Longrightarrow> keys_distinct (cleanup_positions st)"
  by (simp add: keys_distinct_def cleanup_positions_def distinct_map_filter)

lemma keys_distinct_close_if_empty:
  "keys_distinct st \<Longrightarrow> keys_distinct (close_if_empty cid p st)"
  by (simp add: close_if_empty_def keys_distinct_delete)

lemma sell_unique_close_if_empty:
  "sell_unique st \<Longrightarrow> sell_unique (close_if_empty cid p st)"
  by (simp add: close_if_empty_def sell_unique_delete)

lemma handle_fill_key_keys:
  assumes "keys_distinct st"
  shows "keys_distinct (handle_fill_key ex now item st)"
proof -
  obtain cid tok sd total_size where item: "item = ((cid, tok, sd), total_size)"
    by (cases item) auto
  show ?thesis
  proof (cases "map_of (positions st) cid")
    case None
    then show ?thesis using assms by (simp add: handle_fill_key_def item)
  next
    case (Some p0)
    show ?thesis
      using Some assms
      by (cases sd)
         (simp_all add: handle_fill_key_def item Let_def split_beta keys_distinct_store
            place_and_track_state)
  qed
qed

section \<open>handle_ws_fill\<close>

lemma find_SomeD: "find P xs = Some x \<Longrightarrow> x \<in> set xs \<and> P x"
  by (induction xs) (auto split: if_splits)

lemma find_order_owner_Some:
  assumes "find_order_owner ps oid = Some (cid, p0, od)"
  shows "(cid, p0) \<in> set ps" and "od \<in> set (orders p0)" and "order_id od = oid"
  using assms
  by (auto simp: find_order_owner_def split: option.splits prod.splits dest!: find_SomeD)

lemma find_order_owner_map_of:
  assumes "find_order_owner ps oid = Some (cid, p0, od)" and "distinct (map fst ps)"
  shows "map_of ps cid = Some p0"
  using find_order_owner_Some(1)[OF assms(1)] assms(2) by simp

lemma sell_unique_member:
  assumes "sell_unique st" and "(cid, p) \<in> set (positions st)"
  shows "distinct (sell_tokens p)"
  using assms by (auto simp: sell_unique_def list_all_iff)

lemma distinct_sell_tokens_filter:
  assumes "distinct (sell_tokens p)"
  shows "distinct (sell_tokens (p\<lparr>orders := filter P (orders p)\<rparr>))"
proof -
  have "filter (\<lambda>od. side od = SELL) (filter P xs)
          = filter P (filter (\<lambda>od. side od = SELL) xs)" for xs :: "ActiveOrder list"
    by (induction xs) auto
  then have "sell_tokens (p\<lparr>orders := filter P (orders p)\<rparr>)
          = map token_id (filter P (filter (\<lambda>od. side od = SELL) (orders p)))"
    by (simp add: sell_tokens_def del: filter_filter)
  moreover have "distinct (map token_id (filter P (filter (\<lambda>od. side od = SELL) (orders p))))"
    using assms unfolding sell_tokens_def by (rule distinct_map_filter)
  ultimately show ?thesis by (simp only:)
qed

lemma sell_tokens_set_first_size:
  "map token_id (filter (\<lambda>od. side od = SELL) (set_first_size oid r xs))
     = map token_id (filter (\<lambda>od. side od = SELL) xs)"
  by (induction xs) auto

lemma distinct_sell_tokens_set_first_size:
  assumes "distinct (sell_tokens p)"
  shows "distinct (sell_tokens (p\<lparr>orders := set_first_size oid r (orders p)\<rparr>))"
  using assms by (simp add: sell_tokens_def sell_tokens_set_first_size)

lemma ws_untracked_side_ok:
  assumes "sell_unique st" and "distinct (sell_tokens pos)"
  shows "sell_unique (ws_untracked_side now c b pos sz st)"
proof -
  have "distinct (sell_tokens (q\<lparr>orders := filter P (orders pos)\<rparr>))" if "orders q = orders pos" for q P
    using distinct_sell_tokens_filter[OF assms(2), of P] that by (simp add: sell_tokens_def)
  then show ?thesis
    using assms(1)
    by (auto simp: ws_untracked_side_def Let_def set_inventory_def sell_unique_delete
        store_position_def[symmetric] intro!: sell_unique_store)
qed

lemma ws_untracked_side_keys:
  assumes "keys_distinct st"
  shows "keys_distinct (ws_untracked_side now c b pos sz st)"
  using assms
  by (auto simp: ws_untracked_side_def Let_def keys_distinct_delete
      store_position_def[symmetric] intro!: keys_distinct_store)

lemma ws_untracked_side_submitted [simp]:
  "submitted (ws_untracked_side now c b pos sz st) = submitted st"
  by (simp add: ws_untracked_side_def Let_def)

lemma ws_untracked_ok:
  assumes "sell_unique st" and "list_all (\<lambda>(c, p). distinct (sell_tokens p)) ps"
  shows "sell_unique (ws_untracked now asset sz ps st)"
  using assms by (induction ps) (auto simp: ws_untracked_side_ok)

lemma ws_untracked_keys:
  assumes "keys_distinct st"
  shows "keys_distinct (ws_untracked now asset sz ps st)"
  using assms by (induction ps) (auto simp: ws_untracked_side_keys)

lemma ws_untracked_submitted [simp]:
  "submitted (ws_untracked now asset sz ps st) = submitted st"
  by (induction ps) auto

lemma new_submissions_append:
  "submitted st' = submitted st @ xs \<Longrightarrow> new_submissions st st' = xs"
  by (simp add: new_submissions_def)

lemma ws_position1_distinct:
  assumes "distinct (sell_tokens p0)"
  shows "distinct (sell_tokens
           (if c then p0\<lparr>orders := set_first_size oid r (orders p0)\<rparr>
            else p0\<lparr>orders := filter (\<lambda>od. order_id od \<noteq> oid) (orders p0)\<rparr>))"
  using distinct_sell_tokens_filter[OF assms] distinct_sell_tokens_set_first_size[OF assms]
  by simp

lemma sell_tokens_last_midpoint [simp]:
  "sell_tokens (p\<lparr>last_midpoint := m\<rparr>) = sell_tokens p"
  by (simp add: sell_tokens_def)

lemma handle_ws_fill_tracked_buy:
  fixes sz px :: rat and now :: rat and ex :: exchange
  assumes "find_order_owner (positions st) oid = Some (cid, p0, od)" and "side od = BUY"
  defines "p1 \<equiv> (if 1 / 1000 < order_size od - sz
                  then p0\<lparr>orders := set_first_size oid (order_size od - sz) (orders p0)\<rparr>
                  else p0\<lparr>orders := filter (\<lambda>x. order_id x \<noteq> oid) (orders p0)\<rparr>)"
  defines "p4 \<equiv> block_if_runaway (token_id od = token_id_yes p0) now
                  (record_buy_fill (token_id od = token_id_yes p0) sz px now (without_buys p1))"
  defines "st3 \<equiv> store_position cid p4
                   (blacklist_market now cid
                      (trip_circuit_breaker now (store_position cid (without_buys p1) st)))"
  defines "p5 \<equiv> p4\<lparr>last_midpoint := midpoint_or_last ex p4\<rparr>"
  defines "pt \<equiv> place_and_track ex now (store_position cid p5 st3) p5 (token_id od)
                   (calculate_sell_price (midpoint_or_last ex p4) (max_spread p5) (tick_size p5)
                      (token_id od = token_id_yes p0))
                   (inventory (token_id od = token_id_yes p0) p5) SELL cid
                   (midpoint_or_last ex p4) (min_size p5)"
  shows "handle_ws_fill ex now oid asset ev sz px st
           = (if has_sell p4 (token_id od) then st3
              else close_if_empty cid (fst pt) (store_position cid (fst pt) (snd pt)))"
  using assms(1,2)
  by (simp add: handle_ws_fill_def Let_def split_beta p1_def p4_def st3_def p5_def pt_def)

lemma record_sell_fill_orders [simp]: "orders (record_sell_fill y sz now p) = orders p"
  by (simp add: record_sell_fill_def Let_def)

lemma handle_ws_fill_tracked_sell:
  assumes "find_order_owner (positions st) oid = Some (cid, p0, od)" and "side od = SELL"
  shows "handle_ws_fill ex now oid asset ev sz px st
           = close_if_empty cid
               (record_sell_fill (token_id od = token_id_yes p0) sz now
                  (if 1 / 1000 < order_size od - sz
                   then p0\<lparr>orders := set_first_size oid (order_size od - sz) (orders p0)\<rparr>
                   else p0\<lparr>orders := filter (\<lambda>x. order_id x \<noteq> oid) (orders p0)\<rparr>))
               (store_position cid
                  (record_sell_fill (token_id od = token_id_yes p0) sz now
                     (if 1 / 1000 < order_size od - sz
                      then p0\<lparr>orders := set_first_size oid (order_size od - sz) (orders p0)\<rparr>
                      else p0\<lparr>orders := filter (\<lambda>x. order_id x \<noteq> oid) (orders p0)\<rparr>))
                  st)"
  using assms
  by (simp add: handle_ws_fill_def Let_def)

lemma handle_ws_fill_sell_unique:
  assumes "sell_unique st"
  shows "sell_unique (handle_ws_fill ex now oid asset ev sz px st)"
proof (cases "find_order_owner (positions st) oid")
  case None
  then show ?thesis
    using ws_untracked_ok[OF assms assms[unfolded sell_unique_def]]
    by (simp add: handle_ws_fill_def)
next
  case (Some t)
  obtain cid p0 od where t: "t = (cid, p0, od)" by (cases t) auto
  have f: "find_order_owner (positions st) oid = Some (cid, p0, od)" using Some t by simp
  have d0: "distinct (sell_tokens p0)"
    by (rule sell_unique_member[OF assms find_order_owner_Some(1)[OF f]])
  show ?thesis
  proof (cases "side od")
    case BUY
    let ?p1 = "(if 1 / 1000 < order_size od - sz
                  then p0\<lparr>orders := set_first_size oid (order_size od - sz) (orders p0)\<rparr>
                  else p0\<lparr>orders := filter (\<lambda>x. order_id x \<noteq> oid) (orders p0)\<rparr>)"
    have d1: "distinct (sell_tokens ?p1)" by (rule ws_position1_distinct[OF d0])
    show ?thesis
      unfolding handle_ws_fill_tracked_buy[OF f BUY]
      using assms d1
      by (auto simp: place_and_track_state has_sell_iff
          intro!: sell_unique_close_if_empty sell_unique_store place_and_track_sell_distinct)
  next
    case SELL
    let ?p1 = "(if 1 / 1000 < order_size od - sz
                  then p0\<lparr>orders := set_first_size oid (order_size od - sz) (orders p0)\<rparr>
                  else p0\<lparr>orders := filter (\<lambda>x. order_id x \<noteq> oid) (orders p0)\<rparr>)"
    let ?p2 = "record_sell_fill (token_id od = token_id_yes p0) sz now ?p1"
    have "sell_tokens ?p2 = sell_tokens ?p1"
      by (rule sell_tokens_cong) simp
    then have "distinct (sell_tokens ?p2)" using ws_position1_distinct[OF d0] by simp
    then show ?thesis
      unfolding handle_ws_fill_tracked_sell[OF f SELL] using assms
      by (intro sell_unique_close_if_empty sell_unique_store)
  qed
qed

lemma handle_ws_fill_keys:
  assumes "keys_distinct st"
  shows "keys_distinct (handle_ws_fill ex now oid asset ev sz px st)"
proof (cases "find_order_owner (positions st) oid")
  case None
  then show ?thesis
    using assms by (simp add: handle_ws_fill_def ws_untracked_keys)
next
  case (Some t)
  obtain cid p0 od where t: "t = (cid, p0, od)" by (cases t) auto
  have f: "find_order_owner (positions st) oid = Some (cid, p0, od)" using Some t by simp
  show ?thesis
  proof (cases "side od")
    case BUY
    show ?thesis
      unfolding handle_ws_fill_tracked_buy[OF f BUY]
      using assms
      by (auto simp: place_and_track_state
          intro!: keys_distinct_close_if_empty keys_distinct_store)
  next
    case SELL
    show ?thesis
      unfolding handle_ws_fill_tracked_sell[OF f SELL] using assms
      by (intro keys_distinct_close_if_empty keys_distinct_store)
  qed
qed

lemma filter_other_ids:
  "oid \<notin> order_id ` set xs \<Longrightarrow>
     filter (\<lambda>x. side x = SELL) (filter (\<lambda>x. order_id x \<noteq> oid) xs)
       = filter (\<lambda>x. side x = SELL) xs"
  by (induction xs) auto

lemma same_id_is_matched:
  assumes "distinct (map order_id xs)" and "od \<in> set xs" and "side od = BUY"
  shows "filter (\<lambda>x. side x = SELL) (filter (\<lambda>x. order_id x \<noteq> order_id od) xs)
           = filter (\<lambda>x. side x = SELL) xs"
  using assms
proof (induction xs)
  case Nil
  then show ?case by simp
next
  case (Cons a xs)
  show ?case
  proof (cases "a = od")
    case True
    then have "order_id od \<notin> order_id ` set xs" using Cons.prems(1) by simp
    from filter_other_ids[OF this] True Cons.prems(3) show ?thesis by simp
  next
    case False
    then have m: "od \<in> set xs" using Cons.prems(2) by simp
    then have "order_id a \<noteq> order_id od" using Cons.prems(1) by auto
    moreover have "filter (\<lambda>x. side x = SELL) (filter (\<lambda>x. order_id x \<noteq> order_id od) xs)
           = filter (\<lambda>x. side x = SELL) xs"
      using Cons.IH[OF _ m Cons.prems(3)] Cons.prems(1) by simp
    ultimately show ?thesis by simp
  qed
qed

lemma handle_ws_fill_submitted:
  assumes "keys_distinct st" and "order_ids_distinct st"
  shows "list_all (\<lambda>r. req_side r = SELL \<and> sell_not_tracked st r)
           (new_submissions st (handle_ws_fill ex now oid asset ev sz px st))"
proof (cases "find_order_owner (positions st) oid")
  case None
  then show ?thesis
    by (simp add: handle_ws_fill_def new_submissions_def)
next
  case (Some t)
  obtain cid p0 od where t: "t = (cid, p0, od)" by (cases t) auto
  have f: "find_order_owner (positions st) oid = Some (cid, p0, od)" using Some t by simp
  have m: "map_of (positions st) cid = Some p0"
    using find_order_owner_map_of[OF f] assms(1) by (simp add: keys_distinct_def)
  have ids: "distinct (map order_id (orders p0))"
    using assms(2) find_order_owner_Some(1)[OF f]
    by (auto simp: order_ids_distinct_def list_all_iff)
  show ?thesis
  proof (cases "side od")
    case BUY
    let ?p1 = "(if 1 / 1000 < order_size od - sz
                  then p0\<lparr>orders := set_first_size oid (order_size od - sz) (orders p0)\<rparr>
                  else p0\<lparr>orders := filter (\<lambda>x. order_id x \<noteq> oid) (orders p0)\<rparr>)"
    have "sell_tokens ?p1 = sell_tokens p0"
      using same_id_is_matched[OF ids find_order_owner_Some(2)[OF f] BUY]
        find_order_owner_Some(3)[OF f]
      by (simp add: sell_tokens_def sell_tokens_set_first_size)
    then have hs: "has_sell ?p1 tok = has_sell p0 tok" for tok
      by (simp add: has_sell_iff)
    show ?thesis
      unfolding handle_ws_fill_tracked_buy[OF f BUY]
      using m hs
      by (simp add: new_submissions_def place_and_track_state close_if_empty_def
          sell_not_tracked_def request_of_def has_sell_iff)
  next
    case SELL
    show ?thesis
      unfolding handle_ws_fill_tracked_sell[OF f SELL]
      by (simp add: new_submissions_def close_if_empty_def)
  qed
qed

section \<open>What a fill handler leaves tracked\<close>

lemma map_of_store_position:
  "map_of (positions (store_position cid p st)) = (map_of (positions st))(cid \<mapsto> p)"
  by (simp add: store_position_def update_conv')

lemma map_of_without_buys:
  "map_of (map (\<lambda>(cid, p). (cid, without_buys p)) ps) c = map_option without_buys (map_of ps c)"
  by (induction ps) auto

lemma map_of_breaker:
  "map_of (positions (trip_circuit_breaker now st)) c
     = map_option without_buys (map_of (positions st) c)"
  by (simp add: trip_circuit_breaker_def cancel_all_buys_def GLOBAL_CIRCUIT_BREAKER_def
      map_of_without_buys)

lemma place_and_track_sell_tokens:
  "set (sell_tokens p) \<subseteq> set (sell_tokens (fst (place_and_track ex now st p tok pr sz sd cid mid mo)))"
  using place_and_track_position[of ex now st p tok pr sz sd cid mid mo]
  by (auto simp: sell_tokens_track_order)

lemma handle_fill_key_buy:
  fixes total_size now :: rat and ex :: exchange and tok :: string
  assumes "map_of (positions st) cid = Some p0"
  defines "p2 \<equiv> record_buy_fill (tok = token_id_yes p0) total_size (midpoint_or_last ex p0) now
                   (p0\<lparr>last_midpoint := midpoint_or_last ex p0\<rparr>)"
  defines "p4 \<equiv> block_if_runaway (tok = token_id_yes p0) now (without_buys p2)"
  defines "st2 \<equiv> store_position cid p4
                    (trip_circuit_breaker now (store_position cid (without_buys p2) st))"
  defines "pt \<equiv> place_and_track ex now st2 p4 tok
                   (calculate_sell_price (midpoint_or_last ex p0) (max_spread p4) (tick_size p4)
                      (tok = token_id_yes p0))
                   (inventory (tok = token_id_yes p0) p2) SELL cid
                   (midpoint_or_last ex p0) (min_size p4)"
  shows "handle_fill_key ex now ((cid, tok, BUY), total_size) st
           = (if has_sell p4 tok then st2 else store_position cid (fst pt) (snd pt))"
  using assms(1)
  by (simp add: handle_fill_key_def Let_def split_beta p2_def p4_def st2_def pt_def)

lemma handle_fill_key_sell_tracked:
  "sell_not_tracked (handle_fill_key ex now ((cid, tok, SELL), total_size) st) r
     = sell_not_tracked st r"
proof (cases "map_of (positions st) cid")
  case None
  then show ?thesis by (simp add: handle_fill_key_def)
next
  case (Some p0)
  have "has_sell (p0\<lparr>last_midpoint := m, yes_inventory := a, yes_entry_price := b,
                yes_last_sell_fill := c\<rparr>) t = has_sell p0 t"
    "has_sell (p0\<lparr>last_midpoint := m, no_inventory := a, no_entry_price := b,
                no_last_sell_fill := c\<rparr>) t = has_sell p0 t" for m a b c t
    by (simp_all add: has_sell_def)
  then show ?thesis
    using Some
    by (simp add: handle_fill_key_def Let_def sell_not_tracked_def update_conv')
qed

lemma sell_not_tracked_mono:
  assumes "map_of (positions st) cid = Some p0"
    and "set (sell_tokens p0) \<subseteq> set (sell_tokens p')"
    and "map_of (positions st') = (\<lambda>c. map_option without_buys (map_of (positions st) c))(cid \<mapsto> p')"
    and "sell_not_tracked st' r"
  shows "sell_not_tracked st r"
  using assms
  by (auto simp: sell_not_tracked_def has_sell_iff split: option.splits if_splits)

lemma handle_fill_key_mono:
  assumes "sell_not_tracked (handle_fill_key ex now item st) r"
  shows "sell_not_tracked st r"
proof -
  obtain cid tok sd total_size where item: "item = ((cid, tok, sd), total_size)"
    by (cases item) auto
  show ?thesis
  proof (cases "map_of (positions st) cid")
    case None
    then show ?thesis using assms by (simp add: handle_fill_key_def item)
  next
    case (Some p0)
    show ?thesis
    proof (cases sd)
      case BUY
      define p2 where "p2 = record_buy_fill (tok = token_id_yes p0) total_size
          (midpoint_or_last ex p0) now (p0\<lparr>last_midpoint := midpoint_or_last ex p0\<rparr>)"
      define p4 where "p4 = block_if_runaway (tok = token_id_yes p0) now (without_buys p2)"
      define st2 where "st2 = store_position cid p4
          (trip_circuit_breaker now (store_position cid (without_buys p2) st))"
      define pt where "pt = place_and_track ex now st2 p4 tok
                   (calculate_sell_price (midpoint_or_last ex p0) (max_spread p4) (tick_size p4)
                      (tok = token_id_yes p0))
                   (inventory (tok = token_id_yes p0) p2) SELL cid
                   (midpoint_or_last ex p0) (min_size p4)"
      have h: "handle_fill_key ex now item st
                 = (if has_sell p4 tok then st2 else store_position cid (fst pt) (snd pt))"
        unfolding item BUY handle_fill_key_buy[OF Some] p2_def p4_def st2_def pt_def ..
      have s4: "sell_tokens p4 = sell_tokens p0" by (simp add: p4_def p2_def)
      have m2: "map_of (positions st2)
                  = (\<lambda>c. map_option without_buys (map_of (positions st) c))(cid \<mapsto> p4)"
        by (simp add: st2_def fun_eq_iff update_conv' map_of_without_buys)
      have mt: "positions (snd pt) = positions st2"
        by (simp add: pt_def place_and_track_state)
      have st: "set (sell_tokens p0) \<subseteq> set (sell_tokens (fst pt))"
        using place_and_track_sell_tokens[of p4] s4 by (simp add: pt_def)
      show ?thesis
      proof (cases "has_sell p4 tok")
        case True
        show ?thesis
          by (rule sell_not_tracked_mono[OF Some _ m2]) (use assms h True s4 in simp_all)
      next
        case False
        have m3: "map_of (positions (store_position cid (fst pt) (snd pt)))
                  = (\<lambda>c. map_option without_buys (map_of (positions st) c))(cid \<mapsto> fst pt)"
          using m2 mt by (simp add: update_conv')
        show ?thesis
          by (rule sell_not_tracked_mono[OF Some st m3]) (use assms h False in simp)
      qed
    next
      case SELL
      then show ?thesis
        using assms item handle_fill_key_sell_tracked by simp
    qed
  qed
qed

lemma handle_fill_key_new:
  "list_all (\<lambda>r. req_side r = SELL \<and> sell_not_tracked st r)
     (new_submissions st (handle_fill_key ex now item st))"
proof -
  obtain cid tok sd total_size where item: "item = ((cid, tok, sd), total_size)"
    by (cases item) auto
  show ?thesis
    unfolding item
    by (simp add: new_submissions_def handle_fill_key_submitted sell_not_tracked_def
        request_of_def split: option.splits)
qed

lemma handle_fill_key_grows:
  "\<exists>xs. submitted (handle_fill_key ex now item st) = submitted st @ xs"
proof -
  obtain cid tok sd total_size where item: "item = ((cid, tok, sd), total_size)"
    by (cases item) auto
  show ?thesis unfolding item handle_fill_key_submitted by blast
qed

lemma fold_fill_keys_grows:
  "\<exists>xs. submitted (fold (handle_fill_key ex now) items st) = submitted st @ xs"
proof (induction items arbitrary: st)
  case Nil
  then show ?case by simp
next
  case (Cons item items)
  obtain xs where a: "submitted (handle_fill_key ex now item st) = submitted st @ xs"
    using handle_fill_key_grows by blast
  obtain ys where "submitted (fold (handle_fill_key ex now) items (handle_fill_key ex now item st))
      = submitted (handle_fill_key ex now item st) @ ys"
    using Cons.IH by blast
  then show ?case using a by simp
qed

lemma fold_fill_keys_new:
  "list_all (\<lambda>r. req_side r = SELL \<and> sell_not_tracked st r)
     (new_submissions st (fold (handle_fill_key ex now) items st))"
proof (induction items arbitrary: st)
  case Nil
  then show ?case by (simp add: new_submissions_def)
next
  case (Cons item items)
  let ?s1 = "handle_fill_key ex now item st"
  obtain xs where a: "submitted ?s1 = submitted st @ xs"
    using handle_fill_key_grows by blast
  obtain ys where b: "submitted (fold (handle_fill_key ex now) items ?s1) = submitted ?s1 @ ys"
    using fold_fill_keys_grows by blast
  have x: "list_all (\<lambda>r. req_side r = SELL \<and> sell_not_tracked st r) xs"
    using handle_fill_key_new[of st ex now item] a by (simp add: new_submissions_def)
  have "list_all (\<lambda>r. req_side r = SELL \<and> sell_not_tracked ?s1 r) ys"
    using Cons.IH[of ?s1] b by (simp add: new_submissions_def)
  then have y: "list_all (\<lambda>r. req_side r = SELL \<and> sell_not_tracked st r) ys"
    unfolding list_all_iff using handle_fill_key_mono[of ex now item st] by blast
  show ?case using a b x y by (simp add: new_submissions_def)
qed

lemma fold_fill_keys_ok:
  "sell_unique st \<Longrightarrow> sell_unique (fold (handle_fill_key ex now) items st)"
  by (induction items arbitrary: st) (simp_all add: handle_fill_key_sell_unique)

lemma fold_fill_keys_keys:
  "keys_distinct st \<Longrightarrow> keys_distinct (fold (handle_fill_key ex now) items st)"
  by (induction items arbitrary: st) (simp_all add: handle_fill_key_keys)

lemma submitted_cleanup [simp]: "submitted (cleanup_positions st) = submitted st"
  by (simp add: cleanup_positions_def)

lemma handle_filled_orders_new:
  "list_all (\<lambda>r. req_side r = SELL \<and> sell_not_tracked st r)
     (new_submissions st (handle_filled_orders ex now fills st))"
  using fold_fill_keys_new[of st ex now "aggregate_fills fills"]
  by (simp add: handle_filled_orders_def new_submissions_def)

lemma handle_filled_orders_ledger:
  "ledger_ok st \<Longrightarrow> ledger_ok (handle_filled_orders ex now fills st)"
  by (simp add: ledger_ok_def handle_filled_orders_def fold_fill_keys_ok fold_fill_keys_keys
      sell_unique_cleanup keys_distinct_cleanup)

lemma handle_ws_fill_ledger:
  "ledger_ok st \<Longrightarrow> ledger_ok (handle_ws_fill ex now oid asset ev sz px st)"
  by (simp add: ledger_ok_def handle_ws_fill_sell_unique handle_ws_fill_keys)

lemma apply_fill_input_ledger: "ledger_ok st \<Longrightarrow> ledger_ok (apply_fill_input ev st)"
proof -
  obtain ex now inp where ev: "ev = (ex, now, inp)" by (cases ev) auto
  show "ledger_ok st \<Longrightarrow> ledger_ok (apply_fill_input ev st)"
    unfolding ev by (cases inp) (simp_all add: handle_filled_orders_ledger handle_ws_fill_ledger)
qed

lemma run_fill_inputs_ledger: "ledger_ok st \<Longrightarrow> ledger_ok (run_fill_inputs evs st)"
  unfolding run_fill_inputs_def
  by (induction evs arbitrary: st) (simp_all add: apply_fill_input_ledger)
section \<open>Price laws\<close>

text \<open>Rounding: \<open>py_round\<close> never goes below the floor of its argument, is at most half
  a unit of the last place above it, and fixes a number that has no more places.\<close>

lemma round_half_even_ge_floor: "\<lfloor>x\<rfloor> \<le> round_half_even x"
  by (simp add: round_half_even_def Let_def)

lemma round_half_even_upper: "of_int (round_half_even x) \<le> x + 1 / 2"
proof -
  have "of_int \<lfloor>x\<rfloor> \<le> x" by (rule of_int_floor_le)
  then show ?thesis
    unfolding round_half_even_def Let_def
    by (simp only: of_int_add of_int_1 split: if_split) linarith
qed

lemma round_half_even_of_int: "round_half_even (of_int k) = k"
  by (simp add: round_half_even_def Let_def)

lemma py_round_ge_floor: "of_int \<lfloor>y\<rfloor> \<le> py_round y n"
proof -
  have "of_int \<lfloor>y\<rfloor> * (10::rat) ^ n \<le> y * 10 ^ n"
    by (simp add: mult_right_mono)
  then have "of_int (\<lfloor>y\<rfloor> * 10 ^ n) \<le> y * (10::rat) ^ n" by simp
  then have "\<lfloor>y\<rfloor> * 10 ^ n \<le> \<lfloor>y * (10::rat) ^ n\<rfloor>" by (simp add: le_floor_iff)
  also have "\<dots> \<le> round_half_even (y * 10 ^ n)" by (rule round_half_even_ge_floor)
  finally have "(of_int (\<lfloor>y\<rfloor> * 10 ^ n) :: rat) \<le> of_int (round_half_even (y * 10 ^ n))"
    by (simp only: of_int_le_iff)
  then show ?thesis
    by (simp add: py_round_def pos_le_divide_eq)
qed

lemma py_round_upper: "py_round y n \<le> y + 1 / (2 * 10 ^ n)"
proof -
  have "of_int (round_half_even (y * 10 ^ n)) \<le> y * (10::rat) ^ n + 1 / 2"
    by (rule round_half_even_upper)
  then show ?thesis
    by (simp add: py_round_def pos_divide_le_eq field_simps)
qed

lemma is_whole_iff: "is_whole x \<longleftrightarrow> (\<exists>k. x = of_int k)"
  unfolding is_whole_def by (metis floor_of_int)

lemma py_round_whole: "is_whole (x * 10 ^ n) \<Longrightarrow> py_round x n = x"
proof -
  assume "is_whole (x * 10 ^ n)"
  then have e: "x * 10 ^ n = of_int \<lfloor>x * 10 ^ n\<rfloor>" unfolding is_whole_def by (rule sym)
  have "round_half_even (x * 10 ^ n) = \<lfloor>x * 10 ^ n\<rfloor>"
    by (subst e) (simp only: round_half_even_of_int)
  then have "py_round x n = of_int \<lfloor>x * 10 ^ n\<rfloor> / 10 ^ n" by (simp add: py_round_def)
  also have "\<dots> = x * 10 ^ n / 10 ^ n" using e by simp
  finally show ?thesis by simp
qed

lemma is_whole_of_int: "is_whole (of_int k)"
  unfolding is_whole_iff by blast

lemma is_whole_mult: "is_whole a \<Longrightarrow> is_whole b \<Longrightarrow> is_whole (a * b)"
  unfolding is_whole_iff by (metis of_int_mult)

lemma is_whole_diff: "is_whole a \<Longrightarrow> is_whole b \<Longrightarrow> is_whole (a - b)"
  unfolding is_whole_iff by (metis of_int_diff)

lemma is_whole_one: "is_whole 1"
  unfolding is_whole_iff by (metis of_int_1)

lemma round_price_down_decimal:
  assumes "decimal_tick t"
  shows "round_price_down x t = of_int \<lfloor>py_round (x / t) 8\<rfloor> * t"
proof -
  have "is_whole (1000000 * t)" using assms by (simp add: decimal_tick_def)
  then have "is_whole (of_int \<lfloor>py_round (x / t) 8\<rfloor> * (1000000 * t))"
    by (rule is_whole_mult[OF is_whole_of_int])
  moreover have "of_int \<lfloor>py_round (x / t) 8\<rfloor> * (1000000 * t)
      = (of_int \<lfloor>py_round (x / t) 8\<rfloor> * t) * 10 ^ 6" by simp
  ultimately have "is_whole ((of_int \<lfloor>py_round (x / t) 8\<rfloor> * t) * 10 ^ 6)"
    by (simp only:)
  then show ?thesis
    unfolding round_price_down_def by (rule py_round_whole)
qed

lemma round_price_down_lower:
  assumes "decimal_tick t"
  shows "x - t < round_price_down x t"
proof -
  have t: "0 < t" using assms by (simp add: decimal_tick_def)
  have "of_int \<lfloor>x / t\<rfloor> \<le> py_round (x / t) 8" by (rule py_round_ge_floor)
  then have "\<lfloor>x / t\<rfloor> \<le> \<lfloor>py_round (x / t) 8\<rfloor>" by (simp add: le_floor_iff)
  then have "(of_int \<lfloor>x / t\<rfloor> :: rat) \<le> of_int \<lfloor>py_round (x / t) 8\<rfloor>" by simp
  moreover have "x / t - 1 < of_int \<lfloor>x / t\<rfloor>" by linarith
  ultimately have "x / t - 1 < of_int \<lfloor>py_round (x / t) 8\<rfloor>" by linarith
  then have "(x / t - 1) * t < of_int \<lfloor>py_round (x / t) 8\<rfloor> * t"
    using t by (simp add: mult_strict_right_mono)
  moreover have "(x / t - 1) * t = x - t" using t by (simp add: field_simps)
  ultimately show ?thesis by (simp add: round_price_down_decimal[OF assms])
qed

lemma round_price_down_upper:
  assumes "decimal_tick t"
  shows "round_price_down x t \<le> x + t / 200000000"
proof -
  have t: "0 < t" using assms by (simp add: decimal_tick_def)
  have "of_int \<lfloor>py_round (x / t) 8\<rfloor> \<le> py_round (x / t) 8" by simp
  also have "\<dots> \<le> x / t + 1 / (2 * 10 ^ 8)" by (rule py_round_upper)
  finally have "of_int \<lfloor>py_round (x / t) 8\<rfloor> * t \<le> (x / t + 1 / (2 * 10 ^ 8)) * t"
    using t by (simp add: mult_right_mono)
  moreover have "(x / t + 1 / (2 * 10 ^ 8)) * t = x + t / 200000000"
    using t by (simp add: field_simps)
  ultimately show ?thesis by (simp add: round_price_down_decimal[OF assms])
qed

lemma round_price_down_exact:
  assumes dt: "decimal_tick t" and w: "is_whole (100000000 * (x / t))"
  shows "round_price_down x t \<le> x"
proof -
  have t: "0 < t" using dt by (simp add: decimal_tick_def)
  have "is_whole ((x / t) * 10 ^ 8)" using w by (simp add: mult.commute)
  then have "py_round (x / t) 8 = x / t" by (rule py_round_whole)
  then have "round_price_down x t = of_int \<lfloor>x / t\<rfloor> * t"
    by (simp add: round_price_down_decimal[OF dt])
  moreover have "of_int \<lfloor>x / t\<rfloor> * t \<le> (x / t) * t"
    using t by (intro mult_right_mono) simp_all
  moreover have "(x / t) * t = x" using t by simp
  ultimately show ?thesis by simp
qed

lemma decimal_tick_half:
  assumes "decimal_tick t"
  shows "t \<le> 1 - t"
proof -
  have "is_whole (1 / t)" "0 < t" "t < 1" using assms by (simp_all add: decimal_tick_def)
  then obtain k :: int where k: "1 / t = of_int k" unfolding is_whole_iff by blast
  have "1 < 1 / t" using \<open>0 < t\<close> \<open>t < 1\<close> by simp
  then have "(1::rat) < of_int k" using k by simp
  then have "2 \<le> k" by linarith
  then have "(2::rat) \<le> of_int k" by linarith
  then have "2 \<le> 1 / t" using k by simp
  then have "2 * t \<le> 1" using \<open>0 < t\<close> by (simp add: pos_le_divide_eq)
  then show ?thesis by linarith
qed

lemma clamp_price_range:
  assumes "decimal_tick t"
  shows "t \<le> clamp_price p t" and "clamp_price p t \<le> 1 - t"
  using decimal_tick_half[OF assms] by (simp_all add: clamp_price_def)

lemma clamp_price_ge: "p \<le> 1 - t \<Longrightarrow> p \<le> clamp_price p t"
  by (simp add: clamp_price_def)

lemma clamp_price_le_max: "clamp_price p t \<le> max t p"
  by (simp add: clamp_price_def)

lemma clamp_price_cases: "clamp_price p t = t \<or> clamp_price p t = p \<or> clamp_price p t = 1 - t"
  by (auto simp: clamp_price_def max_def min_def)

lemma compute_buffer_ge_tick: "t \<le> compute_buffer ms t"
  by (simp add: compute_buffer_def Let_def)

lemma buy_side_bound:
  assumes dt: "decimal_tick t" and ms: "0 < ms" and m: "m < 1 - t"
    and p1: "p1 = clamp_price (round_price_down (m - (ms - compute_buffer ms t)) t) t"
    and p2: "p2 = (if ms \<le> py_round (m - p1) 8 then clamp_price (p1 + t) t else p1)"
  shows "m - p2 < ms"
proof -
  let ?p0 = "round_price_down (m - (ms - compute_buffer ms t)) t"
  have t: "0 < t" using dt by (simp add: decimal_tick_def)
  have r1: "t \<le> p1" "p1 \<le> 1 - t" unfolding p1 by (rule clamp_price_range[OF dt])+
  have "p1 \<le> clamp_price (p1 + t) t"
    using r1 t by (simp add: clamp_price_def)
  then have p12: "p1 \<le> p2" unfolding p2 by simp
  show "m - p2 < ms"
  proof (cases "?p0 \<le> 1 - t")
    case True
    then have "?p0 \<le> p1" unfolding p1 by (rule clamp_price_ge)
    moreover have "m - (ms - compute_buffer ms t) - t < ?p0"
      by (rule round_price_down_lower[OF dt])
    moreover have "t \<le> compute_buffer ms t" by (rule compute_buffer_ge_tick)
    ultimately show ?thesis using p12 by linarith
  next
    case False
    moreover have "t \<le> 1 - t" using r1 by linarith
    ultimately have "p1 = 1 - t" unfolding p1 by (simp add: clamp_price_def)
    then show ?thesis using p12 m ms by linarith
  qed
qed

lemma buy_prices_ge_tick:
  assumes "decimal_tick t"
  shows "t \<le> fst (calculate_order_prices m ms t)" and "t \<le> snd (calculate_order_prices m ms t)"
  using clamp_price_range(1)[OF assms]
  by (simp_all add: calculate_order_prices_def Let_def)

lemma buy_prices_spread:
  assumes dt: "decimal_tick t" and ms: "0 < ms"
    and gy: "fst (calculate_order_prices m ms t) < m"
    and gn: "snd (calculate_order_prices m ms t) < 1 - m"
  shows "m - fst (calculate_order_prices m ms t) < ms"
    and "(1 - m) - snd (calculate_order_prices m ms t) < ms"
proof -
  have my: "m < 1 - t" using buy_prices_ge_tick(2)[OF dt, of m ms] gn by linarith
  have mn: "1 - m < 1 - t" using buy_prices_ge_tick(1)[OF dt, of m ms] gy by linarith
  show "m - fst (calculate_order_prices m ms t) < ms"
    by (rule buy_side_bound[OF dt ms my refl]) (simp add: calculate_order_prices_def Let_def)
  show "(1 - m) - snd (calculate_order_prices m ms t) < ms"
    by (rule buy_side_bound[OF dt ms mn refl]) (simp add: calculate_order_prices_def Let_def)
qed

lemma sell_price_multiple:
  assumes dt: "decimal_tick t"
  shows "tick_multiple (clamp_price (round_price_down x t) t) t"
proof -
  have t: "t \<noteq> 0" and w: "is_whole (1 / t)" using dt by (simp_all add: decimal_tick_def)
  have a: "is_whole (t / t)" using t by (simp add: is_whole_one)
  have "round_price_down x t / t = of_int \<lfloor>py_round (x / t) 8\<rfloor>"
    using t by (simp add: round_price_down_decimal[OF dt])
  then have b: "is_whole (round_price_down x t / t)" by (simp add: is_whole_of_int)
  have "(1 - t) / t = 1 / t - 1" using t by (simp add: field_simps)
  then have c: "is_whole ((1 - t) / t)" using w by (simp add: is_whole_diff is_whole_one)
  show ?thesis
    unfolding tick_multiple_def
    using clamp_price_cases[of "round_price_down x t" t] a b c by auto
qed

lemma sell_price_upper:
  assumes dt: "decimal_tick t"
  shows "clamp_price (round_price_down x t) t \<le> max t (x + t / 200000000)"
  using clamp_price_le_max[of "round_price_down x t" t] round_price_down_upper[OF dt, of x]
  by (simp add: max_def split: if_splits)

lemma sell_price_exact:
  assumes dt: "decimal_tick t" and "t \<le> x" and "is_whole (100000000 * (x / t))"
  shows "clamp_price (round_price_down x t) t \<le> x"
  using clamp_price_le_max[of "round_price_down x t" t] round_price_down_exact[OF dt assms(3)] assms(2)
  by (simp add: max_def split: if_splits)

text \<open>
  Claim C1, as the code has it. For a midpoint in (0,1), a positive \<open>max_spread\<close> and a
  decimal tick: whenever both BUY prices pass the entry check of
  \<^verbatim>\<open>place_two_sided_orders\<close> and \<^verbatim>\<open>replace_orders\<close> (each strictly below its side's
  midpoint), each BUY price is positive and closer to its side's midpoint than
  \<open>max_spread\<close>. The SELL price of either side is a multiple of the tick and at most
  the larger of one tick and the side's midpoint plus the tolerance of the 8-place
  rounding (tick / 200000000); it is at most the side's midpoint when that midpoint is
  at least one tick and midpoint / tick has no more than 8 decimal places.
\<close>

theorem pricing_laws:
  assumes "0 < mid" and "mid < 1" and "0 < ms" and "decimal_tick tick"
  shows "(fst (calculate_order_prices mid ms tick) < mid
            \<and> snd (calculate_order_prices mid ms tick) < 1 - mid
          \<longrightarrow> 0 < fst (calculate_order_prices mid ms tick)
              \<and> mid - fst (calculate_order_prices mid ms tick) < ms
              \<and> 0 < snd (calculate_order_prices mid ms tick)
              \<and> (1 - mid) - snd (calculate_order_prices mid ms tick) < ms)
       \<and> tick_multiple (calculate_sell_price mid ms tick True) tick
       \<and> tick_multiple (calculate_sell_price mid ms tick False) tick
       \<and> calculate_sell_price mid ms tick True \<le> max tick (mid + tick / 200000000)
       \<and> calculate_sell_price mid ms tick False \<le> max tick (1 - mid + tick / 200000000)
       \<and> (tick \<le> mid \<and> is_whole (100000000 * (mid / tick))
          \<longrightarrow> calculate_sell_price mid ms tick True \<le> mid)
       \<and> (tick \<le> 1 - mid \<and> is_whole (100000000 * ((1 - mid) / tick))
          \<longrightarrow> calculate_sell_price mid ms tick False \<le> 1 - mid)"
proof -
  have t: "0 < tick" using assms(4) by (simp add: decimal_tick_def)
  have buy: "fst (calculate_order_prices mid ms tick) < mid
            \<and> snd (calculate_order_prices mid ms tick) < 1 - mid
          \<longrightarrow> 0 < fst (calculate_order_prices mid ms tick)
              \<and> mid - fst (calculate_order_prices mid ms tick) < ms
              \<and> 0 < snd (calculate_order_prices mid ms tick)
              \<and> (1 - mid) - snd (calculate_order_prices mid ms tick) < ms"
    using buy_prices_spread[OF assms(4) assms(3), of mid]
      buy_prices_ge_tick[OF assms(4), of mid ms] t
    by auto
  have sy: "calculate_sell_price mid ms tick True = clamp_price (round_price_down mid tick) tick"
    and sn: "calculate_sell_price mid ms tick False
               = clamp_price (round_price_down (1 - mid) tick) tick"
    by (simp_all add: calculate_sell_price_def Let_def)
  show ?thesis
    unfolding sy sn
    using buy sell_price_multiple[OF assms(4)] sell_price_upper[OF assms(4)]
      sell_price_exact[OF assms(4)]
    by simp
qed

text \<open>The scenario of the specification: midpoint 0.50, \<open>max_spread\<close> 0.03, tick 0.01
  give both BUY prices 0.48.\<close>

theorem pricing_laws_witness:
  "decimal_tick (1 / 100)
   \<and> calculate_order_prices (1 / 2) (3 / 100) (1 / 100) = (12 / 25, 12 / 25)
   \<and> (1 / 2 - fst (calculate_order_prices (1 / 2) (3 / 100) (1 / 100)) < 3 / 100)
   \<and> tick_multiple (calculate_sell_price (1 / 2) (3 / 100) (1 / 100) True) (1 / 100)
   \<and> calculate_sell_price (1 / 2) (3 / 100) (1 / 100) True \<le> 1 / 2"
proof -
  have dt: "decimal_tick (1 / 100)" by code_simp
  have v: "calculate_order_prices (1 / 2) (3 / 100) (1 / 100) = (12 / 25, 12 / 25)"
    by code_simp
  have w: "(1 / 100 :: rat) \<le> 1 / 2 \<and> is_whole (100000000 * ((1 / 2) / (1 / 100)))"
    by code_simp
  have h: "(0::rat) < 1 / 2" "(1 / 2 :: rat) < 1" "(0::rat) < 3 / 100" by simp_all
  show ?thesis
    using pricing_laws[OF h dt] dt v w by simp
qed

text \<open>
  The bounds of C1 do not hold for every midpoint in (0,1). At midpoint 0.005 with tick
  0.01 the clamp lifts the BUY YES price and the SELL YES price to one tick, above the
  midpoint. At midpoint 0.58999999996 both BUY prices pass the entry check, and the
  8-place rounding before the floor lifts the SELL YES price to 0.59, above the midpoint.
\<close>

theorem pricing_laws_counterexample:
  "0 < (1 / 200 :: rat) \<and> (1 / 200 :: rat) < 1 \<and> 0 < (3 / 100 :: rat)
   \<and> 0 < (1 / 100 :: rat) \<and> (1 / 100 :: rat) < 1
   \<and> \<not> fst (calculate_order_prices (1 / 200) (3 / 100) (1 / 100)) < 1 / 200
   \<and> \<not> calculate_sell_price (1 / 200) (3 / 100) (1 / 100) True \<le> 1 / 200
   \<and> 0 < (58999999996 / 100000000000 :: rat) \<and> (58999999996 / 100000000000 :: rat) < 1
   \<and> fst (calculate_order_prices (58999999996 / 100000000000) (3 / 100) (1 / 100))
        < 58999999996 / 100000000000
   \<and> snd (calculate_order_prices (58999999996 / 100000000000) (3 / 100) (1 / 100))
        < 1 - 58999999996 / 100000000000
   \<and> \<not> calculate_sell_price (58999999996 / 100000000000) (3 / 100) (1 / 100) True
        \<le> 58999999996 / 100000000000"
  by code_simp
section \<open>Order status and the fills the REST paths detect\<close>

lemma get_order_status_size_matched:
  assumes "api_get_order ex oid = GetOrderDict status (SizeNum sm)" and "0 < sm"
  shows "get_order_status ex oid = MATCHED"
  using assms by (simp add: get_order_status_def Let_def)

lemma sync_loop_fills:
  assumes "tot \<le> 2 \<or> missing + missing_count_of now live ps < tot"
  shows "fst (sync_loop ex now live tot ps missing fills st)
           = fills @ reported_fills ex now live ps"
  using assms
proof (induction ps arbitrary: missing fills st)
  case Nil
  then show ?case by (simp add: reported_fills_def)
next
  case (Cons a ps)
  obtain cid p where a: "a = (cid, p)" by (cases a)
  let ?m = "length (filter (\<lambda>od. \<not> order_visible now live od) (orders p))"
  have g: "\<not> (tot \<le> missing + ?m \<and> 2 < tot)"
    using Cons.prems by (auto simp: a missing_count_of_def)
  have n: "tot \<le> 2 \<or> (missing + ?m) + missing_count_of now live ps < tot"
    using Cons.prems by (auto simp: a missing_count_of_def)
  let ?live = "filter (\<lambda>od. get_order_status ex (order_id od) = LIVE)
                 (filter (\<lambda>od. \<not> order_visible now live od) (orders p))"
  let ?filled = "filter (\<lambda>od. get_order_status ex (order_id od) \<noteq> LIVE
                            \<and> get_order_status ex (order_id od) \<noteq> CANCELLED)
                   (filter (\<lambda>od. \<not> order_visible now live od) (orders p))"
  let ?st = "st\<lparr>positions := AList.update cid
               (p\<lparr>orders := filter (order_visible now live) (orders p) @ ?live\<rparr>) (positions st)\<rparr>"
  have step: "sync_loop ex now live tot (a # ps) missing fills st
          = sync_loop ex now live tot ps (missing + ?m) (fills @ map (fill_of_order cid) ?filled) ?st"
    unfolding a sync_loop.simps Let_def using g by (rule if_not_P)
  show ?case
    unfolding step Cons.IH[OF n]
    by (simp add: a reported_fills_def)
qed

lemma sync_with_exchange_fills:
  assumes "api_get_orders ex \<noteq> GetOrdersRaises" and "api_get_orders ex \<noteq> GetOrdersNone"
    and "tracked_count st \<le> 2
         \<or> missing_count_of now (live_order_ids (api_get_orders ex)) (positions st) < tracked_count st"
  shows "fst (sync_with_exchange ex now st)
           = reported_fills ex now (live_order_ids (api_get_orders ex)) (positions st)"
proof -
  have "fst (sync_loop ex now (live_order_ids (api_get_orders ex)) (tracked_count st)
               (positions st) 0 [] st)
          = [] @ reported_fills ex now (live_order_ids (api_get_orders ex)) (positions st)"
    by (rule sync_loop_fills) (use assms(3) in simp)
  then show ?thesis
    using assms(1,2)
    by (cases "api_get_orders ex") (simp_all add: sync_with_exchange_def tracked_count_def)
qed

lemma reported_fills_member:
  assumes "(cid, p) \<in> set ps" and "od \<in> set (orders p)"
    and "\<not> order_visible now live od" and "get_order_status ex (order_id od) = MATCHED"
  shows "fill_of_order cid od \<in> set (reported_fills ex now live ps)"
proof -
  let ?f = "\<lambda>(cid, p). map (fill_of_order cid)
          (filter (\<lambda>od. get_order_status ex (order_id od) \<noteq> LIVE
                       \<and> get_order_status ex (order_id od) \<noteq> CANCELLED)
             (filter (\<lambda>od. \<not> order_visible now live od) (orders p)))"
  have "fill_of_order cid od \<in> set (?f (cid, p))"
    using assms(2,3,4) by simp
  then have "\<exists>x \<in> set ps. fill_of_order cid od \<in> set (?f x)"
    using assms(1) by (rule_tac x = "(cid, p)" in bexI)
  then show ?thesis
    unfolding reported_fills_def set_concat set_map by blast
qed

lemma detect_fill_matched:
  assumes "order_id od \<notin> set live" and "ORDER_GRACE_PERIOD_SECONDS \<le> now - placed_at od"
    and "side od = BUY" and "get_order_status ex (order_id od) = MATCHED"
  shows "inventory (token_id od = token_id_yes p) (detect_fill ex now live new_mid od p)
           = inventory (token_id od = token_id_yes p) p + order_size od"
  using assms by (simp add: detect_fill_def inventory_def Let_def)

text \<open>
  Claim C10. When the order-status response is a dict whose \<^verbatim>\<open>size_matched\<close> is a
  number greater than 0, \<^verbatim>\<open>_get_order_status\<close> answers MATCHED whatever the status
  string is (CANCELLED and EXPIRED included). So \<^verbatim>\<open>sync_with_exchange\<close>, when the
  order list was fetched and its bulk-disappearance guard does not stop the loop, reports
  a fill for a tracked order with such a response that is neither listed nor within the
  grace period; and the fill detection of \<^verbatim>\<open>replace_orders\<close> adds the size of such a
  BUY order to the inventory of its side.
\<close>

theorem size_matched_is_a_fill:
  assumes "api_get_order ex (order_id od) = GetOrderDict status (SizeNum sm)" and "0 < sm"
  shows "get_order_status ex (order_id od) = MATCHED
       \<and> (api_get_orders ex \<noteq> GetOrdersRaises \<and> api_get_orders ex \<noteq> GetOrdersNone
          \<and> (tracked_count st \<le> 2
              \<or> missing_count_of now (live_order_ids (api_get_orders ex)) (positions st)
                  < tracked_count st)
          \<and> (cid, p) \<in> set (positions st) \<and> od \<in> set (orders p)
          \<and> \<not> order_visible now (live_order_ids (api_get_orders ex)) od
          \<longrightarrow> fill_of_order cid od \<in> set (fst (sync_with_exchange ex now st)))
       \<and> (order_id od \<notin> set live \<and> ORDER_GRACE_PERIOD_SECONDS \<le> now - placed_at od
          \<and> side od = BUY
          \<longrightarrow> inventory (token_id od = token_id_yes p) (detect_fill ex now live new_mid od p)
                = inventory (token_id od = token_id_yes p) p + order_size od)"
proof -
  have m: "get_order_status ex (order_id od) = MATCHED"
    by (rule get_order_status_size_matched[OF assms])
  have s: "api_get_orders ex \<noteq> GetOrdersRaises \<and> api_get_orders ex \<noteq> GetOrdersNone
          \<and> (tracked_count st \<le> 2
              \<or> missing_count_of now (live_order_ids (api_get_orders ex)) (positions st)
                  < tracked_count st)
          \<and> (cid, p) \<in> set (positions st) \<and> od \<in> set (orders p)
          \<and> \<not> order_visible now (live_order_ids (api_get_orders ex)) od
          \<longrightarrow> fill_of_order cid od \<in> set (fst (sync_with_exchange ex now st))"
  proof
    assume h: "api_get_orders ex \<noteq> GetOrdersRaises \<and> api_get_orders ex \<noteq> GetOrdersNone
          \<and> (tracked_count st \<le> 2
              \<or> missing_count_of now (live_order_ids (api_get_orders ex)) (positions st)
                  < tracked_count st)
          \<and> (cid, p) \<in> set (positions st) \<and> od \<in> set (orders p)
          \<and> \<not> order_visible now (live_order_ids (api_get_orders ex)) od"
    then have h1: "api_get_orders ex \<noteq> GetOrdersRaises" and h2: "api_get_orders ex \<noteq> GetOrdersNone"
      and h3: "tracked_count st \<le> 2
              \<or> missing_count_of now (live_order_ids (api_get_orders ex)) (positions st)
                  < tracked_count st"
      and h4: "(cid, p) \<in> set (positions st)" and h5: "od \<in> set (orders p)"
      and h6: "\<not> order_visible now (live_order_ids (api_get_orders ex)) od"
      by blast+
    have "fst (sync_with_exchange ex now st)
           = reported_fills ex now (live_order_ids (api_get_orders ex)) (positions st)"
      by (rule sync_with_exchange_fills[OF h1 h2 h3])
    moreover have "fill_of_order cid od
        \<in> set (reported_fills ex now (live_order_ids (api_get_orders ex)) (positions st))"
      by (rule reported_fills_member[OF h4 h5 h6 m])
    ultimately show "fill_of_order cid od \<in> set (fst (sync_with_exchange ex now st))"
      by (simp only:)
  qed
  have d: "order_id od \<notin> set live \<and> ORDER_GRACE_PERIOD_SECONDS \<le> now - placed_at od
          \<and> side od = BUY
          \<longrightarrow> inventory (token_id od = token_id_yes p) (detect_fill ex now live new_mid od p)
                = inventory (token_id od = token_id_yes p) p + order_size od"
  proof
    assume "order_id od \<notin> set live \<and> ORDER_GRACE_PERIOD_SECONDS \<le> now - placed_at od
          \<and> side od = BUY"
    then have d1: "order_id od \<notin> set live" and d2: "ORDER_GRACE_PERIOD_SECONDS \<le> now - placed_at od"
      and d3: "side od = BUY" by blast+
    show "inventory (token_id od = token_id_yes p) (detect_fill ex now live new_mid od p)
                = inventory (token_id od = token_id_yes p) p + order_size od"
      by (rule detect_fill_matched[OF d1 d2 d3 m])
  qed
  from m s d show ?thesis by (intro conjI)
qed

text \<open>An order that is reported as cancelled with 10 shares matched: the status is
  MATCHED, the sync reports the fill, the drift path adds the order's 50 shares.\<close>

theorem size_matched_is_a_fill_witness:
  "get_order_status
     (quiet_exchange\<lparr>api_get_order := (\<lambda>oid. GetOrderDict ''cancelled'' (SizeNum 10))\<rparr>)
     ''buy-1'' = MATCHED
   \<and> fill_of_order ''C'' (demo_order ''buy-1'' ''Y'' BUY (12 / 25) 50)
       \<in> set (fst (sync_with_exchange
            (quiet_exchange\<lparr>api_get_order := (\<lambda>oid. GetOrderDict ''cancelled'' (SizeNum 10))\<rparr>)
            100
            (demo_manager (demo_position\<lparr>orders := [demo_order ''buy-1'' ''Y'' BUY (12 / 25) 50]\<rparr>))))
   \<and> yes_inventory (detect_fill
            (quiet_exchange\<lparr>api_get_order := (\<lambda>oid. GetOrderDict ''cancelled'' (SizeNum 10))\<rparr>)
            100 [] (1 / 2) (demo_order ''buy-1'' ''Y'' BUY (12 / 25) 50)
            (demo_position\<lparr>orders := [demo_order ''buy-1'' ''Y'' BUY (12 / 25) 50]\<rparr>)) = 50"
proof -
  let ?ex = "quiet_exchange\<lparr>api_get_order := (\<lambda>oid. GetOrderDict ''cancelled'' (SizeNum 10))\<rparr>"
  let ?od = "demo_order ''buy-1'' ''Y'' BUY (12 / 25) 50"
  let ?p = "demo_position\<lparr>orders := [?od]\<rparr>"
  let ?st = "demo_manager ?p"
  have a: "api_get_order ?ex (order_id ?od) = GetOrderDict ''cancelled'' (SizeNum 10)"
    by simp
  have b: "(0::rat) < 10" by simp
  have c: "api_get_orders ?ex \<noteq> GetOrdersRaises \<and> api_get_orders ?ex \<noteq> GetOrdersNone
          \<and> (tracked_count ?st \<le> 2
              \<or> missing_count_of 100 (live_order_ids (api_get_orders ?ex)) (positions ?st)
                  < tracked_count ?st)
          \<and> (''C'', ?p) \<in> set (positions ?st) \<and> ?od \<in> set (orders ?p)
          \<and> \<not> order_visible 100 (live_order_ids (api_get_orders ?ex)) ?od"
    by (simp add: quiet_exchange_def demo_manager_def demo_order_def tracked_count_def
        order_visible_def live_order_ids_def ORDER_GRACE_PERIOD_SECONDS_def)
  have d: "order_id ?od \<notin> set [] \<and> ORDER_GRACE_PERIOD_SECONDS \<le> 100 - placed_at ?od
          \<and> side ?od = BUY"
    by (simp add: demo_order_def ORDER_GRACE_PERIOD_SECONDS_def)
  have e: "token_id ?od = token_id_yes ?p" "yes_inventory ?p = 0" "order_size ?od = 50"
    by (simp_all add: demo_order_def demo_position_def)
  show ?thesis
    using size_matched_is_a_fill[OF a b, of ?st 100 "''C''" ?p "[]" "1 / 2"] c d e
    by (simp add: inventory_def demo_order_def)
qed
section \<open>C2: at most one SELL per token\<close>

text \<open>
  C2. Start from a ledger with distinct keys in which every position tracks at most one
  SELL per token (the empty ledger is one), and run any finite sequence of calls of
  \<open>handle_filled_orders\<close> and \<open>handle_ws_fill\<close>, on any inputs and against any
  exchange. Then every position of the ledger tracks at most one SELL per token; the
  sequence is arbitrary, so this holds after each of its calls. Every order the next
  call of \<open>handle_filled_orders\<close> submits is a SELL for a market of the ledger that
  tracks no SELL for that token before the call, and so is every order the next call of
  \<open>handle_ws_fill\<close> submits, when no position tracks two orders under one id (the
  exchange hands out the ids; \<open>handle_ws_fill\<close> drops every order that carries the id
  of the trade).
\<close>

theorem one_sell_per_token:
  assumes "ledger_ok st"
  shows "sell_unique (run_fill_inputs evs st)
    \<and> list_all (\<lambda>r. req_side r = SELL \<and> sell_not_tracked (run_fill_inputs evs st) r)
        (new_submissions (run_fill_inputs evs st)
           (handle_filled_orders ex now fills (run_fill_inputs evs st)))
    \<and> (order_ids_distinct (run_fill_inputs evs st) \<longrightarrow>
        list_all (\<lambda>r. req_side r = SELL \<and> sell_not_tracked (run_fill_inputs evs st) r)
          (new_submissions (run_fill_inputs evs st)
             (handle_ws_fill ex now oid asset_id event_side size_matched fill_px
                (run_fill_inputs evs st))))"
proof -
  have l: "ledger_ok (run_fill_inputs evs st)"
    by (rule run_fill_inputs_ledger[OF assms])
  then have k: "keys_distinct (run_fill_inputs evs st)"
    and u: "sell_unique (run_fill_inputs evs st)"
    by (simp_all add: ledger_ok_def)
  show ?thesis
  proof (intro conjI impI)
    show "sell_unique (run_fill_inputs evs st)" by (rule u)
  next
    show "list_all (\<lambda>r. req_side r = SELL \<and> sell_not_tracked (run_fill_inputs evs st) r)
        (new_submissions (run_fill_inputs evs st)
           (handle_filled_orders ex now fills (run_fill_inputs evs st)))"
      by (rule handle_filled_orders_new)
  next
    assume "order_ids_distinct (run_fill_inputs evs st)"
    then show "list_all (\<lambda>r. req_side r = SELL \<and> sell_not_tracked (run_fill_inputs evs st) r)
          (new_submissions (run_fill_inputs evs st)
             (handle_ws_fill ex now oid asset_id event_side size_matched fill_px
                (run_fill_inputs evs st)))"
      by (rule handle_ws_fill_submitted[OF k])
  qed
qed

text \<open>
  The ledger tracks one BUY YES of market ''C''. Two batches report it filled: the first
  places the SELL YES, the second finds it tracked and places none. A BUY NO fill in a
  third batch then places the SELL NO. On the first ledger, the trade event of the BUY
  YES places the SELL YES.
\<close>

theorem one_sell_per_token_witness:
  "ledger_ok (demo_manager (demo_position\<lparr>orders := [demo_order ''buy-1'' ''Y'' BUY (12 / 25) 50]\<rparr>))
   \<and> map (\<lambda>(cid, p). sell_tokens p)
        (positions (run_fill_inputs
           [(quiet_exchange, 100, RestFills [demo_fill ''Y'' BUY 50]),
            (quiet_exchange, 101, RestFills [demo_fill ''Y'' BUY 50])]
           (demo_manager (demo_position\<lparr>orders := [demo_order ''buy-1'' ''Y'' BUY (12 / 25) 50]\<rparr>))))
      = [[''Y'']]
   \<and> submitted (run_fill_inputs
           [(quiet_exchange, 100, RestFills [demo_fill ''Y'' BUY 50]),
            (quiet_exchange, 101, RestFills [demo_fill ''Y'' BUY 50])]
           (demo_manager (demo_position\<lparr>orders := [demo_order ''buy-1'' ''Y'' BUY (12 / 25) 50]\<rparr>)))
      = [request_of ''C'' ''Y'' SELL (1 / 2) 50]
   \<and> sell_unique (run_fill_inputs
           [(quiet_exchange, 100, RestFills [demo_fill ''Y'' BUY 50]),
            (quiet_exchange, 101, RestFills [demo_fill ''Y'' BUY 50])]
           (demo_manager (demo_position\<lparr>orders := [demo_order ''buy-1'' ''Y'' BUY (12 / 25) 50]\<rparr>)))
   \<and> new_submissions
        (run_fill_inputs
           [(quiet_exchange, 100, RestFills [demo_fill ''Y'' BUY 50]),
            (quiet_exchange, 101, RestFills [demo_fill ''Y'' BUY 50])]
           (demo_manager (demo_position\<lparr>orders := [demo_order ''buy-1'' ''Y'' BUY (12 / 25) 50]\<rparr>)))
        (handle_filled_orders quiet_exchange 102 [demo_fill ''N'' BUY 50]
           (run_fill_inputs
              [(quiet_exchange, 100, RestFills [demo_fill ''Y'' BUY 50]),
               (quiet_exchange, 101, RestFills [demo_fill ''Y'' BUY 50])]
              (demo_manager (demo_position\<lparr>orders := [demo_order ''buy-1'' ''Y'' BUY (12 / 25) 50]\<rparr>))))
      = [request_of ''C'' ''N'' SELL (1 / 2) 50]
   \<and> order_ids_distinct
        (demo_manager (demo_position\<lparr>orders := [demo_order ''buy-1'' ''Y'' BUY (12 / 25) 50]\<rparr>))
   \<and> new_submissions
        (demo_manager (demo_position\<lparr>orders := [demo_order ''buy-1'' ''Y'' BUY (12 / 25) 50]\<rparr>))
        (handle_ws_fill quiet_exchange 100 ''buy-1'' ''Y'' BUY 50 (12 / 25)
           (demo_manager (demo_position\<lparr>orders := [demo_order ''buy-1'' ''Y'' BUY (12 / 25) 50]\<rparr>)))
      = [request_of ''C'' ''Y'' SELL (1 / 2) 50]"
proof -
  let ?st = "demo_manager (demo_position\<lparr>orders := [demo_order ''buy-1'' ''Y'' BUY (12 / 25) 50]\<rparr>)"
  let ?evs = "[(quiet_exchange, 100, RestFills [demo_fill ''Y'' BUY 50]),
               (quiet_exchange, 101, RestFills [demo_fill ''Y'' BUY 50])]"
  have a: "ledger_ok ?st" by code_simp
  have b: "map (\<lambda>(cid, p). sell_tokens p) (positions (run_fill_inputs ?evs ?st)) = [[''Y'']]"
    by code_simp
  have c: "submitted (run_fill_inputs ?evs ?st) = [request_of ''C'' ''Y'' SELL (1 / 2) 50]"
    by code_simp
  have d: "new_submissions (run_fill_inputs ?evs ?st)
        (handle_filled_orders quiet_exchange 102 [demo_fill ''N'' BUY 50]
           (run_fill_inputs ?evs ?st))
      = [request_of ''C'' ''N'' SELL (1 / 2) 50]"
    by code_simp
  have e: "order_ids_distinct ?st" by code_simp
  have f: "new_submissions ?st
        (handle_ws_fill quiet_exchange 100 ''buy-1'' ''Y'' BUY 50 (12 / 25) ?st)
      = [request_of ''C'' ''Y'' SELL (1 / 2) 50]"
    by code_simp
  show ?thesis
    using one_sell_per_token[OF a, of ?evs] a b c d e f by simp
qed
section \<open>C4: simultaneous BUY fills\<close>

lemma aggregate_step_same_key:
  assumes "list_all (\<lambda>f. fill_condition_id f = cid \<and> fill_token_id f = tok \<and> fill_side f = sd) fills"
  shows "fold (\<lambda>fill aggregated.
             (let key = (fill_condition_id fill, fill_token_id fill, fill_side fill)
              in AList.update key
                   ((case map_of aggregated key of None \<Rightarrow> 0 | Some v \<Rightarrow> v) + fill_size fill)
                   aggregated))
           fills [((cid, tok, sd), a)]
         = [((cid, tok, sd), a + sum_list (map fill_size fills))]"
  using assms by (induction fills arbitrary: a) (simp_all add: Let_def add.assoc)

lemma aggregate_fills_same_key:
  assumes "same_key_fills cid tok sd fills"
  shows "aggregate_fills fills = [((cid, tok, sd), sum_list (map fill_size fills))]"
proof (cases fills)
  case Nil
  then show ?thesis using assms by (simp add: same_key_fills_def)
next
  case (Cons f fs)
  then have k: "fill_condition_id f = cid" "fill_token_id f = tok" "fill_side f = sd"
    and r: "list_all (\<lambda>f. fill_condition_id f = cid \<and> fill_token_id f = tok \<and> fill_side f = sd) fs"
    using assms by (simp_all add: same_key_fills_def)
  show ?thesis
    using aggregate_step_same_key[OF r, of "fill_size f"] k
    by (simp add: aggregate_fills_def Cons Let_def)
qed

text \<open>
  C4, amended. A batch of N \<ge> 1 BUY fills for one (condition id, token id), of total
  size \<Delta>, handled by \<open>handle_filled_orders\<close> on a tracked position with inventory I on
  that side and no SELL tracked for the token, submits one SELL of size I + \<Delta> at the
  SELL price when that order passes the checks of \<^verbatim>\<open>_place_order\<close> (price in (0,1), size
  positive and at most \<open>MAX_ORDER_SIZE\<close>, price times size at most
  \<open>MAX_SINGLE_ORDER_USDC\<close>) and the allowance refresh succeeds, and submits nothing
  otherwise. It never submits N orders.
\<close>

theorem simultaneous_buy_fills:
  assumes "same_key_fills cid tok BUY fills"
    and "map_of (positions st) cid = Some p"
    and "\<not> has_sell p tok"
  shows "new_submissions st (handle_filled_orders ex now fills st)
           = (if order_checks_pass
                   (calculate_sell_price (midpoint_or_last ex p) (max_spread p) (tick_size p)
                      (tok = token_id_yes p))
                   (inventory (tok = token_id_yes p) p + sum_list (map fill_size fills))
                 \<and> api_update_allowance ex tok
              then [request_of cid tok SELL
                      (calculate_sell_price (midpoint_or_last ex p) (max_spread p) (tick_size p)
                         (tok = token_id_yes p))
                      (inventory (tok = token_id_yes p) p + sum_list (map fill_size fills))]
              else [])"
  using assms(2,3)
  by (simp add: handle_filled_orders_def aggregate_fills_same_key[OF assms(1)]
      new_submissions_def handle_fill_key_submitted)

text \<open>
  Inventory 10 and two BUY YES fills of 20 and 30 at midpoint 0.50: one SELL YES of 60
  at 0.50.
\<close>

theorem simultaneous_buy_fills_witness:
  "same_key_fills ''C'' ''Y'' BUY [demo_fill ''Y'' BUY 20, demo_fill ''Y'' BUY 30]
   \<and> map_of (positions (demo_manager (demo_position\<lparr>yes_inventory := 10\<rparr>))) ''C''
       = Some (demo_position\<lparr>yes_inventory := 10\<rparr>)
   \<and> \<not> has_sell (demo_position\<lparr>yes_inventory := 10\<rparr>) ''Y''
   \<and> new_submissions (demo_manager (demo_position\<lparr>yes_inventory := 10\<rparr>))
        (handle_filled_orders quiet_exchange 100
           [demo_fill ''Y'' BUY 20, demo_fill ''Y'' BUY 30]
           (demo_manager (demo_position\<lparr>yes_inventory := 10\<rparr>)))
       = [request_of ''C'' ''Y'' SELL (1 / 2) 60]"
proof -
  let ?p = "demo_position\<lparr>yes_inventory := 10\<rparr>"
  let ?fills = "[demo_fill ''Y'' BUY 20, demo_fill ''Y'' BUY 30]"
  have a: "same_key_fills ''C'' ''Y'' BUY ?fills" by code_simp
  have b: "map_of (positions (demo_manager ?p)) ''C'' = Some ?p"
    by (simp add: demo_manager_def)
  have c: "\<not> has_sell ?p ''Y''" by code_simp
  have d: "calculate_sell_price (midpoint_or_last quiet_exchange ?p) (max_spread ?p)
             (tick_size ?p) (''Y'' = token_id_yes ?p) = 1 / 2"
    by code_simp
  have e: "inventory (''Y'' = token_id_yes ?p) ?p + sum_list (map fill_size ?fills) = 60"
    by code_simp
  have f: "order_checks_pass (1 / 2) 60 \<and> api_update_allowance quiet_exchange ''Y''"
    by code_simp
  show ?thesis
    using simultaneous_buy_fills[OF a b c, of quiet_exchange 100] a b c f
    unfolding d e by simp
qed

text \<open>
  C4 as stated fails. Inventory 200 and two BUY YES fills of 50 at midpoint 0.90: the
  SELL of 300 shares at 0.90 costs 270, above \<open>MAX_SINGLE_ORDER_USDC\<close> = 250, so
  \<^verbatim>\<open>_place_order\<close> refuses it. No order is submitted, and the position holds 300 shares
  with no order tracked.
\<close>

theorem simultaneous_buy_fills_counterexample:
  "same_key_fills ''C'' ''Y'' BUY [demo_fill ''Y'' BUY 50, demo_fill ''Y'' BUY 50]
   \<and> \<not> has_sell (demo_position\<lparr>last_midpoint := 9 / 10, yes_inventory := 200\<rparr>) ''Y''
   \<and> yes_inventory (demo_position\<lparr>last_midpoint := 9 / 10, yes_inventory := 200\<rparr>) = 200
   \<and> submitted
        (handle_filled_orders quiet_exchange 100
           [demo_fill ''Y'' BUY 50, demo_fill ''Y'' BUY 50]
           (demo_manager (demo_position\<lparr>last_midpoint := 9 / 10, yes_inventory := 200\<rparr>)))
       = []
   \<and> map (\<lambda>(cid, p). (yes_inventory p, orders p))
        (positions
           (handle_filled_orders quiet_exchange 100
              [demo_fill ''Y'' BUY 50, demo_fill ''Y'' BUY 50]
              (demo_manager (demo_position\<lparr>last_midpoint := 9 / 10, yes_inventory := 200\<rparr>))))
       = [(300, [])]"
  by code_simp
section \<open>C3: the global pause\<close>

lemma cancel_market_orders_fields:
  "last_global_fill (snd (cancel_market_orders ex cid st)) = last_global_fill st"
  "submitted (snd (cancel_market_orders ex cid st)) = submitted st"
  by (simp_all add: cancel_market_orders_def Let_def split: option.splits)

lemma cond_place_state:
  assumes "(if c then place_and_track ex now st np tok pr sz sd cid mid mo else (np, st)) = (np', st')"
  shows "st' = st\<lparr>submitted := submitted st
                    @ (if c \<and> order_reaches_exchange ex st tok pr sz sd cid
                       then [request_of cid tok sd pr sz] else [])\<rparr>"
proof (cases c)
  case True
  then have "st' = snd (place_and_track ex now st np tok pr sz sd cid mid mo)"
    using assms by (metis snd_conv)
  then show ?thesis using True by (simp add: place_and_track_state)
next
  case False
  then show ?thesis using assms by simp
qed

lemma place_two_sided_orders_paused:
  "is_global_paused st now \<Longrightarrow> place_two_sided_orders ex now opp st = (None, st)"
  by (simp add: place_two_sided_orders_def)

lemma process_cooldown_reentries_paused:
  "is_global_paused st now \<Longrightarrow> process_cooldown_reentries ex now st = st"
  by (simp add: process_cooldown_reentries_def)

lemma replace_orders_paused_raw:
  assumes "is_global_paused st now" and "map_of (positions st) cid = Some p0"
    and "calculate_order_prices m (max_spread (detect_fills ex now m p0))
           (tick_size (detect_fills ex now m p0)) = (buy_yes, buy_no)"
    and "\<not> (m \<le> buy_yes \<or> 1 - m \<le> buy_no)"
    and X: "X = sell_request_for ex cid m (detect_fills ex now m p0) True"
    and Y: "Y = sell_request_for ex cid m (detect_fills ex now m p0) False"
  shows "submitted (snd (replace_orders ex now cid m st)) = submitted st @ X @ Y"
proof -
  have p: "is_global_paused (snd (cancel_market_orders ex cid s)) now = is_global_paused s now" for s
    by (simp add: is_global_paused_def cancel_market_orders_fields)
  have pp: "is_global_paused (s\<lparr>positions := ps\<rparr>) now = is_global_paused s now" for s ps
    by (simp add: is_global_paused_def)
  have i: "inventory True q = yes_inventory q" "inventory False q = no_inventory q" for q
    by (simp_all add: inventory_def)
  note srf = sell_request_for_def[unfolded Let_def]
  show ?thesis
    using assms(1-4)
    apply (simp only: replace_orders_def option.case)
    apply ((simp only: Let_def prod.case cong: let_weak_cong prod.case_cong_weak if_weak_cong)
        | (split prod.split, intro allI impI) | (split if_split, intro conjI impI))+
     apply (drule cond_place_state)+
     apply (simp add: cancel_market_orders_fields request_of_def p pp srf
        order_reaches_exchange_def i X Y)
    apply (drule cond_place_state)+
    apply (simp add: cancel_market_orders_fields request_of_def p pp srf
        order_reaches_exchange_def i X Y)
    done
qed

lemma replace_orders_paused:
  assumes "is_global_paused st now"
  shows "submitted (snd (replace_orders ex now cid m st))
           = submitted st @ paused_replacement ex now cid m st"
proof (cases "map_of (positions st) cid")
  case None
  then show ?thesis by (simp add: replace_orders_def paused_replacement_def)
next
  case (Some p0)
  obtain buy_yes buy_no where c: "calculate_order_prices m (max_spread (detect_fills ex now m p0))
           (tick_size (detect_fills ex now m p0)) = (buy_yes, buy_no)"
    by (cases "calculate_order_prices m (max_spread (detect_fills ex now m p0))
           (tick_size (detect_fills ex now m p0))") auto
  show ?thesis
  proof (cases "m \<le> buy_yes \<or> 1 - m \<le> buy_no")
    case True
    then show ?thesis
      using Some c
      by (simp add: replace_orders_def paused_replacement_def Let_def
          cancel_market_orders_fields)
  next
    case False
    show ?thesis
      using replace_orders_paused_raw[OF assms Some c False refl refl] Some c False
      by (simp add: paused_replacement_def Let_def)
  qed
qed

lemma paused_replacement_sells:
  "list_all (\<lambda>r. req_side r = SELL) (paused_replacement ex now cid m st)"
  by (simp add: paused_replacement_def sell_request_for_def request_of_def Let_def
      split: option.splits)

lemma buys_submitted_append:
  assumes "submitted st' = submitted st @ xs" and "list_all (\<lambda>r. req_side r = SELL) xs"
  shows "buys_submitted st' = buys_submitted st"
proof -
  have "filter (\<lambda>r. req_side r = BUY) xs = []"
    using assms(2) by (induction xs) auto
  then show ?thesis using assms(1) by (simp add: buys_submitted_def)
qed

lemma handle_filled_orders_buys:
  "buys_submitted (handle_filled_orders ex now fills st) = buys_submitted st"
proof -
  obtain xs where a: "submitted (fold (handle_fill_key ex now) (aggregate_fills fills) st)
      = submitted st @ xs"
    using fold_fill_keys_grows by blast
  then have s: "submitted (handle_filled_orders ex now fills st) = submitted st @ xs"
    by (simp add: handle_filled_orders_def)
  have "list_all (\<lambda>r. req_side r = SELL \<and> sell_not_tracked st r) xs"
    using handle_filled_orders_new[of st ex now fills] s by (simp add: new_submissions_def)
  then have "list_all (\<lambda>r. req_side r = SELL) xs" by (simp add: list_all_iff)
  then show ?thesis by (rule buys_submitted_append[OF s])
qed

lemma submitted_close_if_empty [simp]:
  "submitted (close_if_empty cid p st) = submitted st"
  by (simp add: close_if_empty_def)

lemma handle_ws_fill_buys:
  "buys_submitted (handle_ws_fill ex now oid asset ev sz px st) = buys_submitted st"
proof (cases "find_order_owner (positions st) oid")
  case None
  then show ?thesis by (simp add: handle_ws_fill_def buys_submitted_def)
next
  case (Some t)
  obtain cid p0 od where t: "t = (cid, p0, od)" by (cases t) auto
  have f: "find_order_owner (positions st) oid = Some (cid, p0, od)" using Some t by simp
  show ?thesis
  proof (cases "side od")
    case BUY
    show ?thesis
      unfolding handle_ws_fill_tracked_buy[OF f BUY]
      by (simp add: buys_submitted_def place_and_track_state request_of_def)
  next
    case SELL
    show ?thesis
      unfolding handle_ws_fill_tracked_sell[OF f SELL]
      by (simp add: buys_submitted_def)
  qed
qed

lemma retry_side_submitted:
  "\<exists>xs. submitted (retry_side ex now cid is_yes st) = submitted st @ xs
        \<and> list_all (\<lambda>r. req_side r = SELL) xs"
proof (cases "map_of (positions st) cid")
  case None
  then show ?thesis by (simp add: retry_side_def)
next
  case (Some p)
  define tok where "tok = (if is_yes then token_id_yes p else token_id_no p)"
  define st1 where "st1 = st\<lparr>last_retry := (last_retry st)((cid, tok) \<mapsto> now)\<rparr>"
  define po where "po = place_order ex now st1 tok
      (calculate_sell_price (midpoint_or_last ex p) (max_spread p) (tick_size p) is_yes)
      (inventory is_yes p) SELL cid (midpoint_or_last ex p) (min_size p)"
  have s: "submitted (snd po) = submitted st
      @ (if order_reaches_exchange ex st1 tok
              (calculate_sell_price (midpoint_or_last ex p) (max_spread p) (tick_size p) is_yes)
              (inventory is_yes p) SELL cid
         then [request_of cid tok SELL
              (calculate_sell_price (midpoint_or_last ex p) (max_spread p) (tick_size p) is_yes)
              (inventory is_yes p)] else [])"
    by (simp add: po_def place_order_state st1_def)
  have "submitted (retry_side ex now cid is_yes st) = submitted st
      \<or> submitted (retry_side ex now cid is_yes st) = submitted (snd po)"
    using Some
    by (simp add: retry_side_def Let_def split_beta po_def st1_def tok_def
        split: option.split)
  then show ?thesis
    using s by (auto simp: request_of_def)
qed

lemma retry_side_buys:
  "buys_submitted (retry_side ex now cid is_yes st) = buys_submitted st"
  using retry_side_submitted[of ex now cid is_yes st] buys_submitted_append by blast

lemma retry_pending_sells_buys:
  "buys_submitted (retry_pending_sells ex now st) = buys_submitted st"
proof -
  have "buys_submitted (fold (retry_position ex now) cids s) = buys_submitted s" for cids s
    by (induction cids arbitrary: s) (simp_all add: retry_position_def retry_side_buys)
  then have "buys_submitted (cleanup_positions (fold (retry_position ex now) cids s))
      = buys_submitted s" for cids s
    by (simp add: buys_submitted_def)
  then show ?thesis by (simp add: retry_pending_sells_def)
qed

text \<open>
  C3. While \<open>is_global_paused\<close> holds, \<open>place_two_sided_orders\<close> returns without
  touching the state, \<open>process_cooldown_reentries\<close> returns the state unchanged, and
  \<open>replace_orders\<close> submits exactly the requests of \<open>paused_replacement\<close>, all of them
  SELL: no BUY is submitted by any of the three. The other handlers that place orders
  (\<open>handle_filled_orders\<close>, \<open>handle_ws_fill\<close>, \<open>retry_pending_sells\<close>) never submit a
  BUY. SELL placement stays open: \<open>paused_replacement\<close> holds a SELL for every side with
  inventory whose order passes the checks.
\<close>

theorem no_buy_while_paused:
  assumes "is_global_paused st now"
  shows "place_two_sided_orders ex now opp st = (None, st)
    \<and> process_cooldown_reentries ex now st = st
    \<and> submitted (snd (replace_orders ex now cid new_midpoint st))
        = submitted st @ paused_replacement ex now cid new_midpoint st
    \<and> list_all (\<lambda>r. req_side r = SELL) (paused_replacement ex now cid new_midpoint st)
    \<and> buys_submitted (snd (replace_orders ex now cid new_midpoint st)) = buys_submitted st
    \<and> buys_submitted (handle_filled_orders ex now fills st) = buys_submitted st
    \<and> buys_submitted (handle_ws_fill ex now oid asset_id event_side size_matched fill_px st)
        = buys_submitted st
    \<and> buys_submitted (retry_pending_sells ex now st) = buys_submitted st"
proof -
  have a: "submitted (snd (replace_orders ex now cid new_midpoint st))
        = submitted st @ paused_replacement ex now cid new_midpoint st"
    by (rule replace_orders_paused[OF assms])
  have b: "list_all (\<lambda>r. req_side r = SELL) (paused_replacement ex now cid new_midpoint st)"
    by (rule paused_replacement_sells)
  have c: "buys_submitted (snd (replace_orders ex now cid new_midpoint st)) = buys_submitted st"
    by (rule buys_submitted_append[OF a b])
  show ?thesis
    using a b c
    by (simp add: place_two_sided_orders_paused[OF assms]
        process_cooldown_reentries_paused[OF assms] handle_filled_orders_buys
        handle_ws_fill_buys retry_pending_sells_buys)
qed

text \<open>
  Market ''C'' holds 50 YES shares, the circuit breaker tripped at time 50 and the clock
  reads 100. The drift replacement at midpoint 0.50 submits the SELL YES of 50 and no
  BUY; without the pause it also submits the BUY NO.
\<close>

theorem no_buy_while_paused_witness:
  "is_global_paused
     ((demo_manager (demo_position\<lparr>yes_inventory := 50\<rparr>))\<lparr>last_global_fill := 50\<rparr>) 100
   \<and> submitted (snd (replace_orders quiet_exchange 100 ''C'' (1 / 2)
        ((demo_manager (demo_position\<lparr>yes_inventory := 50\<rparr>))\<lparr>last_global_fill := 50\<rparr>)))
      = [request_of ''C'' ''Y'' SELL (1 / 2) 50]
   \<and> submitted (snd (replace_orders quiet_exchange 100 ''C'' (1 / 2)
        (demo_manager (demo_position\<lparr>yes_inventory := 50\<rparr>))))
      = [request_of ''C'' ''N'' BUY (12 / 25) 50, request_of ''C'' ''Y'' SELL (1 / 2) 50]"
proof -
  let ?st = "(demo_manager (demo_position\<lparr>yes_inventory := 50\<rparr>))\<lparr>last_global_fill := 50\<rparr>"
  have a: "is_global_paused ?st 100" by code_simp
  have b: "paused_replacement quiet_exchange 100 ''C'' (1 / 2) ?st
             = [request_of ''C'' ''Y'' SELL (1 / 2) 50]"
    by code_simp
  have c: "submitted ?st = []" by (simp add: demo_manager_def)
  have d: "submitted (snd (replace_orders quiet_exchange 100 ''C'' (1 / 2)
        (demo_manager (demo_position\<lparr>yes_inventory := 50\<rparr>))))
      = [request_of ''C'' ''N'' BUY (12 / 25) 50, request_of ''C'' ''Y'' SELL (1 / 2) 50]"
    by code_simp
  show ?thesis
    using no_buy_while_paused[OF a, where ex = quiet_exchange and cid = "''C''"
        and new_midpoint = "1 / 2"] a d
    unfolding b c by simp
qed

end
